theory Spec2Isabelle
  imports Main
begin

section \<open>Python values, objects and the store\<close>

text \<open>
  The module \<^verbatim>\<open>clpfd.py\<close> builds symbolic constraint trees out of Python objects whose
  identity matters (\<^verbatim>\<open>self._variables[v.name] is not v\<close>), so objects live in an explicit
  store: a list of objects in allocation order, an address being an index of that list.
  Allocation appends, and nothing is ever freed.

  A value is what a Python name can hold in this module: \<^verbatim>\<open>None\<close>, \<^verbatim>\<open>NotImplemented\<close>,
  a \<^verbatim>\<open>bool\<close>, an \<^verbatim>\<open>int\<close> (unbounded), a numpy integer scalar (an instance of
  \<^verbatim>\<open>np.integer\<close>), a numpy boolean (\<^verbatim>\<open>numpy.bool_\<close>, which is neither an \<^verbatim>\<open>int\<close> nor an
  \<^verbatim>\<open>np.integer\<close>), a \<^verbatim>\<open>str\<close>, a numpy string (\<^verbatim>\<open>numpy.str_\<close>), a \<^verbatim>\<open>range\<close>, a \<^verbatim>\<open>DomainRange\<close> (never
  mutated and never compared by identity, so held by value), a \<^verbatim>\<open>tuple\<close>, or a
  reference to an object of the store.
\<close>

type_synonym addr = nat

datatype py_range = Range (start: int) (stop: int) (step: int)

text \<open>\<^verbatim>\<open>DomainRange.__init__(self, low=None, up=None)\<close> sets \<^verbatim>\<open>self.min = low\<close> and
  \<^verbatim>\<open>self.max = up\<close>; a bound is an integer or \<^verbatim>\<open>None\<close>.\<close>

datatype DomainRange = DomainRange (min_d: "int option") (max_d: "int option")

datatype pyval =
    PNone
  | PNotImplemented
  | PBool bool
  | PInt int
  | PNpInt int
  | PNpBool bool
  | PStr string
  | PNpStr string
  | PRange py_range
  | PDomain DomainRange
  | PTuple "pyval list"
  | PRef addr

text \<open>
  The exceptions of the module. \<^verbatim>\<open>assert\<close> raises \<^verbatim>\<open>AssertionError\<close> with the message of
  the source (assertions are enabled: the interpreter does not run with \<^verbatim>\<open>-O\<close>);
  \<^verbatim>\<open>raise ValueError(...)\<close> carries the source's message. The exceptions the
  interpreter raises by itself carry the attribute or operation that failed.
  \<^verbatim>\<open>RecursionError\<close> is what Python raises when the recursion limit is reached.
\<close>

datatype exn =
    AssertionError string
  | ValueError string
  | AttributeError string
  | TypeError string
  | IndexError string
  | NotImplementedError string
  | RecursionError

text \<open>\<^verbatim>\<open>isinstance(e, TypeError)\<close> on a raised exception: none of the other classes derives
  from \<^verbatim>\<open>TypeError\<close>.\<close>

fun is_TypeError :: "exn \<Rightarrow> bool" where
  "is_TypeError (TypeError m) = True"
| "is_TypeError e = False"

text \<open>
  Objects of the store. An \<^verbatim>\<open>Expression\<close> has the attributes \<^verbatim>\<open>op\<close> and \<^verbatim>\<open>values\<close> (\<open>values_of\<close> here); a
  \<^verbatim>\<open>Variable\<close> is an \<^verbatim>\<open>Expression\<close> (\<^verbatim>\<open>class Variable(Expression)\<close>) with the further
  attributes \<^verbatim>\<open>name\<close> and \<^verbatim>\<open>domain\<close>; an array is a numpy \<^verbatim>\<open>ndarray\<close>, or its
  subclass \<^verbatim>\<open>Variables\<close>, with its dtype (\<^verbatim>\<open>np.object\<close>, the alias of \<^verbatim>\<open>object\<close> in the
  numpy the module was written for, or another), its shape and its elements in row-major
  order (what \<^verbatim>\<open>arr.flat\<close> iterates).
\<close>

datatype np_dtype = np_object | np_other string

datatype obj =
    Expression (op: "string option") (values_of: "pyval list")
  | Variable (op: "string option") (values_of: "pyval list") (name: string) (domain: pyval)
  | Ndarray (is_Variables: bool) (dtype: np_dtype) (shape: "nat list") (flat: "pyval list")

text \<open>The store and the class attribute \<^verbatim>\<open>Variable._varidx\<close>, the only process-wide
  mutable state of the module.\<close>

record world =
  heap :: "obj list"
  varidx :: nat

definition obj_at :: "world \<Rightarrow> addr \<Rightarrow> obj option" where
  "obj_at w a = (if a < length (heap w) then Some (heap w ! a) else None)"

definition alloc :: "world \<Rightarrow> obj \<Rightarrow> addr \<times> world" where
  "alloc w ob = (length (heap w), w\<lparr>heap := heap w @ [ob]\<rparr>)"

subsection \<open>\<^verbatim>\<open>isinstance\<close>\<close>

fun isinstance_Expression :: "world \<Rightarrow> pyval \<Rightarrow> bool" where
  "isinstance_Expression w (PRef a) =
     (case obj_at w a of
        Some (Expression opr vs) \<Rightarrow> True
      | Some (Variable opr vs n d) \<Rightarrow> True
      | _ \<Rightarrow> False)"
| "isinstance_Expression w v = False"

fun isinstance_Variable :: "world \<Rightarrow> pyval \<Rightarrow> bool" where
  "isinstance_Variable w (PRef a) =
     (case obj_at w a of Some (Variable opr vs n d) \<Rightarrow> True | _ \<Rightarrow> False)"
| "isinstance_Variable w v = False"

fun isinstance_Variables :: "world \<Rightarrow> pyval \<Rightarrow> bool" where
  "isinstance_Variables w (PRef a) =
     (case obj_at w a of Some (Ndarray True dt sh xs) \<Rightarrow> True | _ \<Rightarrow> False)"
| "isinstance_Variables w v = False"

text \<open>\<^verbatim>\<open>bool\<close> is a subclass of \<^verbatim>\<open>int\<close>; a numpy integer is not an \<^verbatim>\<open>int\<close>, and an
  \<^verbatim>\<open>int\<close> is not an \<^verbatim>\<open>np.integer\<close>.\<close>

fun isinstance_int :: "pyval \<Rightarrow> bool" where
  "isinstance_int (PInt i) = True"
| "isinstance_int (PBool b) = True"
| "isinstance_int v = False"

fun isinstance_np_integer :: "pyval \<Rightarrow> bool" where
  "isinstance_np_integer (PNpInt i) = True"
| "isinstance_np_integer v = False"

text \<open>\<^verbatim>\<open>"%s" % type(v)\<close>, with the module imported under its file name \<^verbatim>\<open>clpfd\<close>.\<close>

fun type_name :: "world \<Rightarrow> pyval \<Rightarrow> string" where
  "type_name w PNone = ''NoneType''"
| "type_name w PNotImplemented = ''NotImplementedType''"
| "type_name w (PBool b) = ''bool''"
| "type_name w (PInt i) = ''int''"
| "type_name w (PNpInt i) = ''numpy.int64''"
| "type_name w (PNpBool b) = ''numpy.bool_''"
| "type_name w (PStr s) = ''str''"
| "type_name w (PNpStr s) = ''numpy.str_''"
| "type_name w (PRange r) = ''range''"
| "type_name w (PDomain d) = ''clpfd.DomainRange''"
| "type_name w (PTuple vs) = ''tuple''"
| "type_name w (PRef a) =
     (case obj_at w a of
        Some (Expression opr vs) \<Rightarrow> ''clpfd.Expression''
      | Some (Variable opr vs n d) \<Rightarrow> ''clpfd.Variable''
      | Some (Ndarray True dt sh xs) \<Rightarrow> ''clpfd.Variables''
      | Some (Ndarray False dt sh xs) \<Rightarrow> ''numpy.ndarray''
      | None \<Rightarrow> ''object'')"

definition type_str :: "world \<Rightarrow> pyval \<Rightarrow> string" where
  "type_str w v = ''<class '' @ [CHR 0x27] @ type_name w v @ [CHR 0x27] @ ''>''"

section \<open>Expression\<close>

text \<open>
  \<^verbatim>\<open>
  def __init__(self, op, *values):
      self.op = op
      self.values = values
      for v in values:
          assert isinstance(v, (Expression, int, np.integer)), \
              "Can only build expressions out of expressions or integers. Got: %s" % type(v)
  \<close>
  \<open>check_operands\<close> is the loop: the first operand that fails the test raises.
  \<open>Expression_init\<close> is the constructor call \<^verbatim>\<open>Expression(op, *values)\<close>. Nothing but
  its constructor can reach an object under construction, so an object enters the store
  when its constructor returns it, and a construction that raises leaves the store as it
  was.
\<close>

definition operand_msg :: string where
  "operand_msg = ''Can only build expressions out of expressions or integers. Got: ''"

definition valid_operand :: "world \<Rightarrow> pyval \<Rightarrow> bool" where
  "valid_operand w v \<longleftrightarrow> isinstance_Expression w v \<or> isinstance_int v \<or> isinstance_np_integer v"

fun check_operands :: "world \<Rightarrow> pyval list \<Rightarrow> exn option" where
  "check_operands w [] = None"
| "check_operands w (v # vs) =
     (if valid_operand w v then check_operands w vs
      else Some (AssertionError (operand_msg @ type_str w v)))"

definition Expression_init :: "world \<Rightarrow> string option \<Rightarrow> pyval list \<Rightarrow> (exn + pyval) \<times> world" where
  "Expression_init w opr vs =
     (case check_operands w vs of
        Some e \<Rightarrow> (Inl e, w)
      | None \<Rightarrow> (let (self, w') = alloc w (Expression opr vs) in (Inr (PRef self), w')))"

text \<open>
  \<^verbatim>\<open>
  def __add__(self, value):  return Expression('+', self, value)
  def __radd__(self, value): return Expression('+', value, self)
  def __eq__(self, value):   return Expression('=', self, value)
  \<close>
  Python evaluates \<^verbatim>\<open>e1 + e2\<close> as \<^verbatim>\<open>e1.__add__(e2)\<close> when \<^verbatim>\<open>e1\<close> is an Expression, and
  \<^verbatim>\<open>n + e\<close> with an \<^verbatim>\<open>int\<close> on the left as \<^verbatim>\<open>e.__radd__(n)\<close>, since \<^verbatim>\<open>int.__add__\<close>
  returns \<^verbatim>\<open>NotImplemented\<close> for an operand it does not know.
\<close>

definition Expression_add :: "world \<Rightarrow> pyval \<Rightarrow> pyval \<Rightarrow> (exn + pyval) \<times> world" where
  "Expression_add w self v = Expression_init w (Some ''+'') [self, v]"

definition Expression_radd :: "world \<Rightarrow> pyval \<Rightarrow> pyval \<Rightarrow> (exn + pyval) \<times> world" where
  "Expression_radd w self v = Expression_init w (Some ''+'') [v, self]"

definition Expression_eq :: "world \<Rightarrow> pyval \<Rightarrow> pyval \<Rightarrow> (exn + pyval) \<times> world" where
  "Expression_eq w self v = Expression_init w (Some ''='') [self, v]"

section \<open>DomainRange\<close>

text \<open>
  \<^verbatim>\<open>
  @staticmethod
  def fromrange(r):
      assert isinstance(r, range), "DomainRange.fromrange only accepts range objects"
      assert r.step == 1, "Sparse ranges not implemented yet"
      return DomainRange(r.start, r.stop)
  \<close>
  \<open>py_range2\<close> is Python's \<^verbatim>\<open>range(a, b)\<close>, whose step is 1.
\<close>

definition py_range2 :: "int \<Rightarrow> int \<Rightarrow> pyval" where
  "py_range2 a b = PRange (Range a b 1)"

fun DomainRange_fromrange :: "pyval \<Rightarrow> exn + pyval" where
  "DomainRange_fromrange (PRange r) =
     (if step r = 1 then Inr (PDomain (DomainRange (Some (start r)) (Some (stop r))))
      else Inl (AssertionError ''Sparse ranges not implemented yet''))"
| "DomainRange_fromrange v =
     Inl (AssertionError ''DomainRange.fromrange only accepts range objects'')"

section \<open>Variable\<close>

text \<open>\<^verbatim>\<open>"%d" % n\<close> for a counter or an index, which is never negative.\<close>

definition digit_char :: "nat \<Rightarrow> char" where
  "digit_char d = ''0123456789'' ! d"

function string_of_nat :: "nat \<Rightarrow> string" where
  "string_of_nat n =
     (if n < 10 then [digit_char n] else string_of_nat (n div 10) @ [digit_char (n mod 10)])"
  by pat_completeness auto
termination
  by (relation "measure id") auto

declare string_of_nat.simps [simp del]

text \<open>
  \<^verbatim>\<open>
  _varidx = 0

  @classmethod
  def new_name(cls):
      name = "var_%d" % Variable._varidx
      Variable._varidx += 1
      return name
  \<close>
\<close>

definition Variable_new_name :: "world \<Rightarrow> string \<times> world" where
  "Variable_new_name w =
     (let name = ''var_'' @ string_of_nat (varidx w) in
      (name, w\<lparr>varidx := varidx w + 1\<rparr>))"

fun isinstance_range :: "pyval \<Rightarrow> bool" where
  "isinstance_range (PRange r) = True"
| "isinstance_range v = False"

text \<open>
  \<^verbatim>\<open>
  def __init__(self, domain=None, name=None):
      super(Variable, self).__init__(None)
      if name is None:
          name = self.new_name()
      if domain is None:
          domain = DomainRange()
      elif isinstance(domain, range):
          domain = DomainRange.fromrange(domain)
      self.name = name
      self.domain = domain
  \<close>
  The constructor call \<^verbatim>\<open>Variable(domain, name)\<close>; the name is a \<^verbatim>\<open>str\<close> or \<^verbatim>\<open>None\<close>.
  The name is drawn before the domain is converted, so a construction that fails on its
  range has still advanced the counter.
\<close>

definition Variable_init :: "world \<Rightarrow> pyval \<Rightarrow> string option \<Rightarrow> (exn + pyval) \<times> world" where
  "Variable_init w dmn nm =
     (let (name, w1) = (case nm of None \<Rightarrow> Variable_new_name w | Some n \<Rightarrow> (n, w));
          d = (if dmn = PNone then Inr (PDomain (DomainRange None None))
               else if isinstance_range dmn then DomainRange_fromrange dmn
               else Inr dmn)
      in case d of
           Inl e \<Rightarrow> (Inl e, w1)
         | Inr d' \<Rightarrow> (let (self, w2) = alloc w1 (Variable None [] name d') in (Inr (PRef self), w2)))"

section \<open>Variables\<close>

text \<open>
  \<^verbatim>\<open>
  def __new__(subtype, shape, domain=None, name_prefix=None):
      arr = super(Variables, subtype).__new__(subtype, shape, dtype=np.object)
      if name_prefix is None:
          name_prefix = Variable.new_name()
      arr.flat = [Variable(domain, "%s_%d" % (name_prefix, i)) for i in range(len(arr.flat))]
      return arr
  \<close>
  \<open>make_variables\<close> is the list comprehension over the flat indices; the shape is a tuple
  of dimensions, and \<^verbatim>\<open>len(arr.flat)\<close> is their product.
\<close>

fun make_variables :: "world \<Rightarrow> pyval \<Rightarrow> string \<Rightarrow> nat list \<Rightarrow> (exn + pyval list) \<times> world" where
  "make_variables w dmn pre [] = (Inr [], w)"
| "make_variables w dmn pre (i # is) =
     (case Variable_init w dmn (Some (pre @ ''_'' @ string_of_nat i)) of
        (Inl e, w1) \<Rightarrow> (Inl e, w1)
      | (Inr v, w1) \<Rightarrow>
          (case make_variables w1 dmn pre is of
             (Inl e, w2) \<Rightarrow> (Inl e, w2)
           | (Inr vs, w2) \<Rightarrow> (Inr (v # vs), w2)))"

definition Variables_new :: "world \<Rightarrow> nat list \<Rightarrow> pyval \<Rightarrow> string option \<Rightarrow> (exn + pyval) \<times> world" where
  "Variables_new w sh dmn name_prefix =
     (let (pre, w1) = (case name_prefix of None \<Rightarrow> Variable_new_name w | Some p \<Rightarrow> (p, w))
      in case make_variables w1 dmn pre [0..<prod_list sh] of
           (Inl e, w2) \<Rightarrow> (Inl e, w2)
         | (Inr vs, w2) \<Rightarrow> (let (arr, w3) = alloc w2 (Ndarray True np_object sh vs) in (Inr (PRef arr), w3)))"

text \<open>
  A process is a sequence of constructor calls, \<^verbatim>\<open>Variable(domain, name)\<close> or
  \<^verbatim>\<open>Variables(shape, domain, name_prefix)\<close>, each of which returns an object or raises.
  \<open>auto_names\<close> reads, in the final store, the names that were generated: the name of
  each variable constructed with no name supplied, and the names of the elements of each
  container constructed with no prefix supplied.
\<close>

datatype construction =
    NewVariable pyval "string option"
  | NewVariables "nat list" pyval "string option"

fun construct :: "world \<Rightarrow> construction \<Rightarrow> (exn + pyval) \<times> world" where
  "construct w (NewVariable dmn nm) = Variable_init w dmn nm"
| "construct w (NewVariables sh dmn pre) = Variables_new w sh dmn pre"

fun run_constructions :: "world \<Rightarrow> construction list \<Rightarrow> (exn + pyval) list \<times> world" where
  "run_constructions w [] = ([], w)"
| "run_constructions w (c # cs) =
     (let (r, w1) = construct w c; (rs, w2) = run_constructions w1 cs in (r # rs, w2))"

fun name_in :: "obj list \<Rightarrow> pyval \<Rightarrow> string" where
  "name_in h (PRef a) = (case h ! a of Variable opr vs nm d \<Rightarrow> nm | _ \<Rightarrow> [])"
| "name_in h v = []"

fun elements_in :: "obj list \<Rightarrow> pyval \<Rightarrow> pyval list" where
  "elements_in h (PRef a) = (case h ! a of Ndarray sub dt sh xs \<Rightarrow> xs | _ \<Rightarrow> [])"
| "elements_in h v = []"

fun auto_names :: "obj list \<Rightarrow> construction list \<Rightarrow> (exn + pyval) list \<Rightarrow> string list" where
  "auto_names h (NewVariable dmn None # cs) (Inr v # rs) = name_in h v # auto_names h cs rs"
| "auto_names h (NewVariables sh dmn None # cs) (Inr v # rs) =
     map (name_in h) (elements_in h v) @ auto_names h cs rs"
| "auto_names h (c # cs) (r # rs) = auto_names h cs rs"
| "auto_names h cs rs = []"

section \<open>Expression.variables\<close>

text \<open>
  \<^verbatim>\<open>
  def variables(self):
      if isinstance(self, Variable):
          return [self]
      return sum([v.variables() for v in self.values if isinstance(v, Expression)], [])
  \<close>
  The method recurses through the store, so it takes the recursion depth it may still use:
  at depth 0 Python raises \<^verbatim>\<open>RecursionError\<close>. \<open>concat_results\<close> is
  \<^verbatim>\<open>sum(lists, [])\<close> over the results of the list comprehension, which stops at the first
  call that raises. The model is the call \<^verbatim>\<open>self.variables()\<close>: on a value that is no
  Expression the attribute lookup fails.
\<close>

fun concat_results :: "(exn + 'a list) list \<Rightarrow> exn + 'a list" where
  "concat_results [] = Inr []"
| "concat_results (Inl e # rs) = Inl e"
| "concat_results (Inr xs # rs) =
     (case concat_results rs of Inl e \<Rightarrow> Inl e | Inr ys \<Rightarrow> Inr (xs @ ys))"

primrec Expression_variables :: "nat \<Rightarrow> world \<Rightarrow> pyval \<Rightarrow> exn + pyval list" where
  "Expression_variables 0 w self = Inl RecursionError"
| "Expression_variables (Suc n) w self =
     (case self of
        PRef a \<Rightarrow>
          (case obj_at w a of
             Some (Variable opr vs nm d) \<Rightarrow> Inr [self]
           | Some (Expression opr vs) \<Rightarrow>
               concat_results (map (Expression_variables n w) (filter (isinstance_Expression w) vs))
           | _ \<Rightarrow> Inl (AttributeError ''variables''))
      | _ \<Rightarrow> Inl (AttributeError ''variables''))"

text \<open>
  The stores the module builds: every reference among the operands of an Expression
  points to an object allocated before it, since the operands of a node exist when the
  node is constructed and are never replaced. Such a store has no dangling operand and no
  cycle of operands. (Arrays are not constrained: they are no operands, and their elements
  are assigned after they are allocated.)
\<close>

fun refs_below :: "addr \<Rightarrow> pyval list \<Rightarrow> bool" where
  "refs_below a [] = True"
| "refs_below a (PRef b # vs) = (b < a \<and> refs_below a vs)"
| "refs_below a (v # vs) = refs_below a vs"

fun operands :: "obj \<Rightarrow> pyval list" where
  "operands (Expression opr vs) = vs"
| "operands (Variable opr vs nm d) = vs"
| "operands (Ndarray sub dt sh xs) = []"

fun wf_from :: "addr \<Rightarrow> obj list \<Rightarrow> bool" where
  "wf_from a [] = True"
| "wf_from a (ob # obs) = (refs_below a (operands ob) \<and> wf_from (Suc a) obs)"

definition wf_heap :: "world \<Rightarrow> bool" where
  "wf_heap w = wf_from 0 (heap w)"

section \<open>Solver\<close>

text \<open>
  \<^verbatim>\<open>
  class Solver(metaclass=ABCMeta):
      def __init__(self):
          self._conststore = []
          self._variables = {}
  \<close>
  The dict is an association list in insertion order, with at most one entry for a key:
  \<open>map_of\<close> looks a key up, and \<open>dict_set\<close> replaces the value of a key in place or
  appends a new entry.
\<close>

record Solver =
  conststore :: "pyval list"
  variables :: "(string \<times> pyval) list"

definition Solver_init :: Solver where
  "Solver_init = \<lparr>conststore = [], variables = []\<rparr>"

fun dict_set :: "'k \<Rightarrow> 'v \<Rightarrow> ('k \<times> 'v) list \<Rightarrow> ('k \<times> 'v) list" where
  "dict_set k v [] = [(k, v)]"
| "dict_set k v ((k', v') # kvs) = (if k' = k then (k, v) # kvs else (k', v') # dict_set k v kvs)"

text \<open>\<^verbatim>\<open>v.name\<close>: only a Variable has the attribute.\<close>

fun attr_name :: "world \<Rightarrow> pyval \<Rightarrow> exn + string" where
  "attr_name w (PRef a) =
     (case obj_at w a of
        Some (Variable opr vs nm d) \<Rightarrow> Inr nm
      | _ \<Rightarrow> Inl (AttributeError ''name''))"
| "attr_name w v = Inl (AttributeError ''name'')"

text \<open>
  \<^verbatim>\<open>
  def add_constraint(self, c):
      if c is None or isinstance(c, np.integer):
          return
      if isinstance(c, Variables):
          for v in c.flat:
              self.add_constraint(v)
          return
      for v in c.variables():
          if v.name not in self._variables:
              self._variables[v.name] = v
          elif self._variables[v.name] is not v:
              raise ValueError("Two variables with the same name in the same model")
      self._conststore.append(c)
  \<close>
  \<open>register_variables\<close> is the second loop, on the dict; \<^verbatim>\<open>is not\<close> compares the two
  references. \<open>for_each\<close> is a \<^verbatim>\<open>for\<close> loop whose body may raise. The method returns
  \<^verbatim>\<open>None\<close> or raises, and in both cases the Solver keeps what was done to it.
\<close>

definition duplicate_msg :: string where
  "duplicate_msg = ''Two variables with the same name in the same model''"

fun register_variables ::
  "world \<Rightarrow> (string \<times> pyval) list \<Rightarrow> pyval list \<Rightarrow> (exn + unit) \<times> (string \<times> pyval) list" where
  "register_variables w vars [] = (Inr (), vars)"
| "register_variables w vars (v # vs) =
     (case attr_name w v of
        Inl e \<Rightarrow> (Inl e, vars)
      | Inr nm \<Rightarrow>
          (case map_of vars nm of
             None \<Rightarrow> register_variables w (dict_set nm v vars) vs
           | Some u \<Rightarrow>
               if u \<noteq> v then (Inl (ValueError duplicate_msg), vars)
               else register_variables w vars vs))"

fun for_each :: "('s \<Rightarrow> 'a \<Rightarrow> (exn + unit) \<times> 's) \<Rightarrow> 's \<Rightarrow> 'a list \<Rightarrow> (exn + unit) \<times> 's" where
  "for_each body s [] = (Inr (), s)"
| "for_each body s (x # xs) =
     (case body s x of
        (Inl e, s') \<Rightarrow> (Inl e, s')
      | (Inr u, s') \<Rightarrow> for_each body s' xs)"

fun attr_flat :: "world \<Rightarrow> pyval \<Rightarrow> pyval list" where
  "attr_flat w (PRef a) = (case obj_at w a of Some (Ndarray sub dt sh xs) \<Rightarrow> xs | _ \<Rightarrow> [])"
| "attr_flat w v = []"

primrec Solver_add_constraint ::
  "nat \<Rightarrow> world \<Rightarrow> 'a Solver_scheme \<Rightarrow> pyval \<Rightarrow> (exn + unit) \<times> 'a Solver_scheme" where
  "Solver_add_constraint 0 w self c = (Inl RecursionError, self)"
| "Solver_add_constraint (Suc n) w self c =
     (if c = PNone \<or> isinstance_np_integer c then (Inr (), self)
      else if isinstance_Variables w c then
        for_each (Solver_add_constraint n w) self (attr_flat w c)
      else
        (case Expression_variables n w c of
           Inl e \<Rightarrow> (Inl e, self)
         | Inr xs \<Rightarrow>
             (case register_variables w (variables self) xs of
                (Inl e, vars) \<Rightarrow> (Inl e, self\<lparr>variables := vars\<rparr>)
              | (Inr u, vars) \<Rightarrow>
                  (Inr (), self\<lparr>variables := vars, conststore := conststore self @ [c]\<rparr>))))"

section \<open>SolverPulp: lowering\<close>

text \<open>
  The backend (pulp) is outside the module. What the module hands to it is kept as a term:
  a Python value passed through unchanged, the variable that the call
  \<^verbatim>\<open>pulp.LpVariable(name, lowBound, upBound, pulp.LpInteger)\<close> creates, and the results of
  \<^verbatim>\<open>+\<close> and \<^verbatim>\<open>==\<close> applied to two lowered operands, which are pulp's overloaded
  operators when an operand is a pulp object.
\<close>

datatype lp_cat = LpInteger

datatype lowered =
    Py pyval
  | LpVariable string "int option" int lp_cat
  | Plus lowered lowered
  | Equals lowered lowered

record SolverPulp = Solver +
  lpvars :: "(string \<times> lowered) list"

definition SolverPulp_init :: SolverPulp where
  "SolverPulp_init = \<lparr>conststore = [], variables = [], lpvars = []\<rparr>"

text \<open>\<^verbatim>\<open>v.domain.min\<close> and \<^verbatim>\<open>v.domain.max - 1\<close>: only a Variable has a \<^verbatim>\<open>domain\<close>, only a
  DomainRange has the two bounds, and \<^verbatim>\<open>None - 1\<close> is a \<^verbatim>\<open>TypeError\<close>.\<close>

fun attr_domain :: "world \<Rightarrow> pyval \<Rightarrow> exn + pyval" where
  "attr_domain w (PRef a) =
     (case obj_at w a of
        Some (Variable opr vs nm d) \<Rightarrow> Inr d
      | _ \<Rightarrow> Inl (AttributeError ''domain''))"
| "attr_domain w v = Inl (AttributeError ''domain'')"

fun attr_min :: "pyval \<Rightarrow> exn + int option" where
  "attr_min (PDomain d) = Inr (min_d d)"
| "attr_min v = Inl (AttributeError ''min'')"

fun attr_max :: "pyval \<Rightarrow> exn + int option" where
  "attr_max (PDomain d) = Inr (max_d d)"
| "attr_max v = Inl (AttributeError ''max'')"

fun minus_one :: "int option \<Rightarrow> exn + int" where
  "minus_one None = Inl (TypeError ''-'')"
| "minus_one (Some i) = Inr (i - 1)"

text \<open>
  \<^verbatim>\<open>
  def _add_lpvar(self, v):
      if v.name not in self._lpvars:
          lv = pulp.LpVariable(v.name, v.domain.min, v.domain.max - 1, pulp.LpInteger)
          self._lpvars[v.name] = lv
      return self._lpvars[v.name]
  \<close>
  \<open>new_LpVariable\<close> evaluates the arguments of the constructor call from left to right.
\<close>

definition new_LpVariable :: "world \<Rightarrow> pyval \<Rightarrow> exn + lowered" where
  "new_LpVariable w v =
     (case attr_name w v of
        Inl e \<Rightarrow> Inl e
      | Inr nm \<Rightarrow>
          (case attr_domain w v of
             Inl e \<Rightarrow> Inl e
           | Inr d \<Rightarrow>
               (case attr_min d of
                  Inl e \<Rightarrow> Inl e
                | Inr lo \<Rightarrow>
                    (case attr_max d of
                       Inl e \<Rightarrow> Inl e
                     | Inr hi \<Rightarrow>
                         (case minus_one hi of
                            Inl e \<Rightarrow> Inl e
                          | Inr up \<Rightarrow> Inr (LpVariable nm lo up LpInteger))))))"

definition SolverPulp_add_lpvar ::
  "world \<Rightarrow> SolverPulp \<Rightarrow> pyval \<Rightarrow> (exn + lowered) \<times> SolverPulp" where
  "SolverPulp_add_lpvar w self v =
     (case attr_name w v of
        Inl e \<Rightarrow> (Inl e, self)
      | Inr nm \<Rightarrow>
          (case map_of (lpvars self) nm of
             Some lv \<Rightarrow> (Inr lv, self)
           | None \<Rightarrow>
               (case new_LpVariable w v of
                  Inl e \<Rightarrow> (Inl e, self)
                | Inr lv \<Rightarrow> (Inr lv, self\<lparr>lpvars := dict_set nm lv (lpvars self)\<rparr>))))"

text \<open>A list comprehension whose element expression changes a state and may raise.\<close>

fun list_comprehension ::
  "('s \<Rightarrow> 'a \<Rightarrow> (exn + 'b) \<times> 's) \<Rightarrow> 's \<Rightarrow> 'a list \<Rightarrow> (exn + 'b list) \<times> 's" where
  "list_comprehension f s [] = (Inr [], s)"
| "list_comprehension f s (x # xs) =
     (case f s x of
        (Inl e, s1) \<Rightarrow> (Inl e, s1)
      | (Inr y, s1) \<Rightarrow>
          (case list_comprehension f s1 xs of
             (Inl e, s2) \<Rightarrow> (Inl e, s2)
           | (Inr ys, s2) \<Rightarrow> (Inr (y # ys), s2)))"

text \<open>\<^verbatim>\<open>c.values\<close> and \<^verbatim>\<open>c.op\<close>, which an Expression has and no other value.\<close>

fun attr_values_op :: "world \<Rightarrow> pyval \<Rightarrow> exn + (pyval list \<times> string option)" where
  "attr_values_op w (PRef a) =
     (case obj_at w a of
        Some (Expression opr vs) \<Rightarrow> Inr (vs, opr)
      | Some (Variable opr vs nm d) \<Rightarrow> Inr (vs, opr)
      | _ \<Rightarrow> Inl (AttributeError ''values''))"
| "attr_values_op w v = Inl (AttributeError ''values'')"

text \<open>
  \<^verbatim>\<open>
  def _convert_constraint(self, c):
      if isinstance(c, (np.integer, int)):
          return c
      if isinstance(c, Variable):
          return self._add_lpvar(c)
      lpexpr = [self._convert_constraint(v) for v in c.values]
      if c.op == '+':
          return lpexpr[0] + lpexpr[1]
      if c.op == '=':
          return lpexpr[0] == lpexpr[1]
  \<close>
  Every operand is lowered, in order, before the operator is looked at; a node with fewer
  than two operands fails on the index, and a node with another operator returns
  \<^verbatim>\<open>None\<close>.
\<close>

fun binary :: "(lowered \<Rightarrow> lowered \<Rightarrow> lowered) \<Rightarrow> lowered list \<Rightarrow> exn + lowered" where
  "binary f (x # y # zs) = Inr (f x y)"
| "binary f zs = Inl (IndexError ''list index out of range'')"

primrec SolverPulp_convert_constraint ::
  "nat \<Rightarrow> world \<Rightarrow> SolverPulp \<Rightarrow> pyval \<Rightarrow> (exn + lowered) \<times> SolverPulp" where
  "SolverPulp_convert_constraint 0 w self c = (Inl RecursionError, self)"
| "SolverPulp_convert_constraint (Suc n) w self c =
     (if isinstance_np_integer c \<or> isinstance_int c then (Inr (Py c), self)
      else if isinstance_Variable w c then SolverPulp_add_lpvar w self c
      else
        (case attr_values_op w c of
           Inl e \<Rightarrow> (Inl e, self)
         | Inr (vs, opr) \<Rightarrow>
             (case list_comprehension (SolverPulp_convert_constraint n w) self vs of
                (Inl e, self') \<Rightarrow> (Inl e, self')
              | (Inr lpexpr, self') \<Rightarrow>
                  if opr = Some ''+'' then (binary Plus lpexpr, self')
                  else if opr = Some ''='' then (binary Equals lpexpr, self')
                  else (Inr (Py PNone), self'))))"

text \<open>
  The part of \<^verbatim>\<open>solve\<close> that comes before the backend is run:
  \<^verbatim>\<open>
  if variables is None:
      variables = self._variables.values()
  self._lpvars = {}
  for v in variables:
      self._add_lpvar(v)
  for c in self._conststore:
      prob += self._convert_constraint(c)
  \<close>
  It returns the lowered constraints, in the order in which they are added to the problem.
\<close>

definition SolverPulp_solve_lowering ::
  "nat \<Rightarrow> world \<Rightarrow> SolverPulp \<Rightarrow> pyval list option \<Rightarrow> (exn + lowered list) \<times> SolverPulp" where
  "SolverPulp_solve_lowering n w self vars =
     (let vs = (case vars of None \<Rightarrow> map snd (variables self) | Some xs \<Rightarrow> xs);
          s0 = self\<lparr>lpvars := []\<rparr>
      in case list_comprehension (SolverPulp_add_lpvar w) s0 vs of
           (Inl e, s1) \<Rightarrow> (Inl e, s1)
         | (Inr lvs, s1) \<Rightarrow> list_comprehension (SolverPulp_convert_constraint n w) s1 (conststore s1))"

section \<open>Variables: elementwise equality\<close>

text \<open>
  The module relies on numpy and on the interpreter for behaviour that it does not
  define. What the properties below need of it is modelled (views, broadcasting of arrays and
  scalars, \<^verbatim>\<open>np.empty\<close>, assignment to \<^verbatim>\<open>flat\<close>, \<^verbatim>\<open>==\<close> on an Expression, \<^verbatim>\<open>str\<close> of an
  integer). The rest is a parameter, the host: numpy's own \<^verbatim>\<open>__array_ufunc__\<close>, the
  \<^verbatim>\<open>==\<close> of two values when it does not end in \<^verbatim>\<open>Expression.__eq__\<close>, \<^verbatim>\<open>np.asarray\<close> of a
  value that is no array, and \<^verbatim>\<open>str\<close> of the other values.
\<close>

record ufunc =
  ufunc_name :: string
  nout :: nat

definition np_equal :: ufunc where
  "np_equal = \<lparr>ufunc_name = ''equal'', nout = 1\<rparr>"

record host =
  host_array_ufunc ::
    "world \<Rightarrow> ufunc \<Rightarrow> string \<Rightarrow> pyval list \<Rightarrow> pyval list option \<Rightarrow> (exn + pyval) \<times> world"
  host_eq :: "world \<Rightarrow> pyval \<Rightarrow> pyval \<Rightarrow> (exn + pyval) \<times> world"
  host_asarray :: "world \<Rightarrow> pyval \<Rightarrow> (exn + pyval) \<times> world"
  host_str :: "world \<Rightarrow> pyval \<Rightarrow> exn + string"

text \<open>
  \<^verbatim>\<open>a == b\<close>. Python calls \<^verbatim>\<open>a.__eq__(b)\<close> first, unless the class of \<open>b\<close> is a proper
  subclass of the class of \<open>a\<close>: then \<^verbatim>\<open>b.__eq__(a)\<close> comes first. So for an Expression
  \<open>a\<close> the call is \<^verbatim>\<open>Expression.__eq__(a, b)\<close>, but for a plain Expression \<open>a\<close> and a
  Variable \<open>b\<close> it is \<^verbatim>\<open>Expression.__eq__(b, a)\<close>. The \<^verbatim>\<open>__eq__\<close> of a builtin class
  returns \<^verbatim>\<open>NotImplemented\<close> for an operand it does not know, and Python then calls the
  reflected \<^verbatim>\<open>b.__eq__(a)\<close>. The comparisons of numpy scalars and arrays are the host's.
\<close>

fun builtin_value :: "pyval \<Rightarrow> bool" where
  "builtin_value (PNpInt i) = False"
| "builtin_value (PNpBool b) = False"
| "builtin_value (PNpStr s) = False"
| "builtin_value (PRef a) = False"
| "builtin_value v = True"

definition py_eq :: "host \<Rightarrow> world \<Rightarrow> pyval \<Rightarrow> pyval \<Rightarrow> (exn + pyval) \<times> world" where
  "py_eq H w a b =
     (if isinstance_Expression w a then
        (if isinstance_Variable w b \<and> \<not> isinstance_Variable w a then Expression_eq w b a
         else Expression_eq w a b)
      else if builtin_value a \<and> isinstance_Expression w b then Expression_eq w b a
      else host_eq H w a b)"

text \<open>
  \<^verbatim>\<open>arr.view(cls)\<close> makes a new array object of class \<^verbatim>\<open>cls\<close> on the data of \<^verbatim>\<open>arr\<close>. The
  model gives the view the same dtype, shape and elements; that the two share their data
  is not modelled, and no array is written to below once a view of it exists.
\<close>

fun isinstance_ndarray :: "world \<Rightarrow> pyval \<Rightarrow> bool" where
  "isinstance_ndarray w (PRef a) =
     (case obj_at w a of Some (Ndarray sub dt sh xs) \<Rightarrow> True | _ \<Rightarrow> False)"
| "isinstance_ndarray w v = False"

fun ndarray_view :: "world \<Rightarrow> pyval \<Rightarrow> bool \<Rightarrow> (exn + pyval) \<times> world" where
  "ndarray_view w (PRef a) sub =
     (case obj_at w a of
        Some (Ndarray sub0 dt sh xs) \<Rightarrow>
          (let (b, w') = alloc w (Ndarray sub dt sh xs) in (Inr (PRef b), w'))
      | _ \<Rightarrow> (Inl (AttributeError ''view''), w))"
| "ndarray_view w v sub = (Inl (AttributeError ''view''), w)"

text \<open>
  \<^verbatim>\<open>np.broadcast(*inputs)\<close>. Shapes are aligned at their last dimension; two dimensions
  agree when they are equal or one of them is 1. An array contributes its shape and
  elements, and a tuple or a range is turned into an array by numpy first. Any other value
  is a scalar: numpy makes of it an array of shape \<^verbatim>\<open>()\<close>, whose dtype is numeric for an
  \<^verbatim>\<open>int\<close> that fits in 64 bits, a \<^verbatim>\<open>bool\<close> and a \<^verbatim>\<open>str\<close>, and \<^verbatim>\<open>object\<close> otherwise, and
  the broadcast yields the element of that array: a numpy scalar (\<^verbatim>\<open>numpy.int64(0)\<close> for
  \<^verbatim>\<open>0\<close>, \<^verbatim>\<open>numpy.bool_\<close> for a \<^verbatim>\<open>bool\<close>) when the dtype is numeric, and the value itself
  when it is \<^verbatim>\<open>object\<close>. The broadcast iterates over the indices of its shape in
  row-major order and yields, for each, the list of the operands' elements there. An
  array holds as many elements as its shape says.
\<close>

fun np_scalar :: "pyval \<Rightarrow> pyval" where
  "np_scalar (PInt i) = (if - (2 ^ 63) \<le> i \<and> i < 2 ^ 64 then PNpInt i else PInt i)"
| "np_scalar (PBool b) = PNpBool b"
| "np_scalar (PStr s) = PNpStr s"
| "np_scalar v = v"

fun broadcast_rev :: "nat list \<Rightarrow> nat list \<Rightarrow> nat list option" where
  "broadcast_rev [] ys = Some ys"
| "broadcast_rev xs [] = Some xs"
| "broadcast_rev (x # xs) (y # ys) =
     (case broadcast_rev xs ys of
        None \<Rightarrow> None
      | Some zs \<Rightarrow>
          if x = y then Some (x # zs)
          else if x = 1 then Some (y # zs)
          else if y = 1 then Some (x # zs)
          else None)"

definition broadcast_shape :: "nat list \<Rightarrow> nat list \<Rightarrow> nat list option" where
  "broadcast_shape a b = map_option rev (broadcast_rev (rev a) (rev b))"

fun broadcast_shapes :: "nat list list \<Rightarrow> nat list option" where
  "broadcast_shapes [] = Some []"
| "broadcast_shapes (sh # shs) =
     (case broadcast_shapes shs of None \<Rightarrow> None | Some t \<Rightarrow> broadcast_shape sh t)"

fun indices :: "nat list \<Rightarrow> nat list list" where
  "indices [] = [[]]"
| "indices (d # ds) = concat (map (\<lambda>i. map ((#) i) (indices ds)) [0..<d])"

definition offset :: "nat list \<Rightarrow> nat list \<Rightarrow> nat" where
  "offset sh idx =
     foldl (\<lambda>acc (d, i). acc * d + (if d = 1 then 0 else i)) 0
       (zip sh (drop (length idx - length sh) idx))"

definition element_at :: "nat list \<times> pyval list \<Rightarrow> nat list \<Rightarrow> pyval" where
  "element_at operand idx = snd operand ! offset (fst operand) idx"

fun is_sequence :: "pyval \<Rightarrow> bool" where
  "is_sequence (PTuple vs) = True"
| "is_sequence (PRange r) = True"
| "is_sequence v = False"

fun array_parts :: "world \<Rightarrow> pyval \<Rightarrow> exn + (nat list \<times> pyval list)" where
  "array_parts w (PRef a) =
     (case obj_at w a of
        Some (Ndarray sub dt sh xs) \<Rightarrow> Inr (sh, xs)
      | _ \<Rightarrow> Inl (AttributeError ''shape''))"
| "array_parts w v = Inl (AttributeError ''shape'')"

definition broadcast_operand ::
  "host \<Rightarrow> world \<Rightarrow> pyval \<Rightarrow> (exn + (nat list \<times> pyval list)) \<times> world" where
  "broadcast_operand H w v =
     (if isinstance_ndarray w v then (array_parts w v, w)
      else if is_sequence v then
        (case host_asarray H w v of
           (Inl e, w1) \<Rightarrow> (Inl e, w1)
         | (Inr arr, w1) \<Rightarrow> (array_parts w1 arr, w1))
      else (Inr ([], [np_scalar v]), w))"

definition np_broadcast ::
  "host \<Rightarrow> world \<Rightarrow> pyval list \<Rightarrow> (exn + (nat list \<times> pyval list list)) \<times> world" where
  "np_broadcast H w inputs =
     (case list_comprehension (broadcast_operand H) w inputs of
        (Inl e, w1) \<Rightarrow> (Inl e, w1)
      | (Inr ops, w1) \<Rightarrow>
          (case broadcast_shapes (map fst ops) of
             None \<Rightarrow> (Inl (ValueError ''shape mismatch''), w1)
           | Some sh \<Rightarrow>
               (Inr (sh, map (\<lambda>idx. map (\<lambda>operand. element_at operand idx) ops) (indices sh)),
                w1)))"

text \<open>
  \<^verbatim>\<open>results.flat = values\<close>: only an array has \<^verbatim>\<open>flat\<close>; numpy copies the values in
  order, starting over when they run out, and copies nothing from an empty list.
\<close>

definition fill :: "pyval list \<Rightarrow> pyval list \<Rightarrow> pyval list" where
  "fill old xs = (if xs = [] then old else map (\<lambda>i. xs ! (i mod length xs)) [0..<length old])"

fun set_flat :: "world \<Rightarrow> pyval \<Rightarrow> pyval list \<Rightarrow> exn + world" where
  "set_flat w (PRef a) xs =
     (case obj_at w a of
        Some (Ndarray sub dt sh old) \<Rightarrow>
          Inr (w\<lparr>heap := (heap w)[a := Ndarray sub dt sh (fill old xs)]\<rparr>)
      | _ \<Rightarrow> Inl (AttributeError ''flat''))"
| "set_flat w v xs = Inl (AttributeError ''flat'')"

text \<open>
  \<^verbatim>\<open>
  def _call_ufunc(self, ufunc, method, *inputs, **kwargs):
      if ufunc == np.equal and method == '__call__':
          bc = np.broadcast(*inputs)
          results = kwargs.get('out', None)
          if results is None:
              results = np.empty(bc.shape, dtype=np.object)
          results.flat = [(a == b) for a, b in bc]
      else:
          results = super(Variables, self).__array_ufunc__(ufunc, method, *inputs, **kwargs)
          if results is NotImplemented:
              return NotImplemented
      return results
  \<close>
  Of the keyword arguments only \<^verbatim>\<open>out\<close> is modelled, a tuple when it is given.
  \<open>equal_pair\<close> is the element expression \<^verbatim>\<open>(a == b)\<close> with its unpacking of a tuple of
  the broadcast, which fails unless the tuple has two entries.
\<close>

fun equal_pair :: "host \<Rightarrow> world \<Rightarrow> pyval list \<Rightarrow> (exn + pyval) \<times> world" where
  "equal_pair H w [a, b] = py_eq H w a b"
| "equal_pair H w t = (Inl (ValueError ''unpack''), w)"

definition Variables_call_ufunc ::
  "host \<Rightarrow> world \<Rightarrow> ufunc \<Rightarrow> string \<Rightarrow> pyval list \<Rightarrow> pyval list option \<Rightarrow> (exn + pyval) \<times> world" where
  "Variables_call_ufunc H w uf method inputs out =
     (if uf = np_equal \<and> method = ''__call__'' then
        (case np_broadcast H w inputs of
           (Inl e, w1) \<Rightarrow> (Inl e, w1)
         | (Inr (sh, bc), w1) \<Rightarrow>
             (let (results, w2) =
                (case out of
                   Some outs \<Rightarrow> (PTuple outs, w1)
                 | None \<Rightarrow>
                     (let (a, w') = alloc w1 (Ndarray False np_object sh (replicate (prod_list sh) PNone))
                      in (PRef a, w')))
              in case list_comprehension (equal_pair H) w2 bc of
                   (Inl e, w3) \<Rightarrow> (Inl e, w3)
                 | (Inr xs, w3) \<Rightarrow>
                     (case set_flat w3 results xs of
                        Inl e \<Rightarrow> (Inl e, w3)
                      | Inr w4 \<Rightarrow> (Inr results, w4))))
      else host_array_ufunc H w uf method inputs out)"

text \<open>
  \<^verbatim>\<open>
  def __array_ufunc__(self, ufunc, method, *inputs, **kwargs):
      try:
          inputs = [i.view(np.ndarray) if isinstance(i, Variables) else i for i in inputs]
          outputs = kwargs.pop('out', None)
          if outputs is not None:
              convout = [isinstance(o, Variables) for o in outputs]
              kwargs['out'] = tuple(o.view(np.ndarray) if v else o for v, o in zip(convout, outputs))
          else:
              convout = [True] * ufunc.nout
          results = self._call_ufunc(ufunc, method, *inputs, **kwargs)
          if ufunc.nout == 1:
              results = (results,)
          results = tuple(np.asarray(r).view(Variables) if v else r for v, r in zip(convout, results))
          return results[0] if ufunc.nout == 1 else results
      except BaseException as e:
          print("raised in __array_ufunc__:")
          traceback.print_exc()
  \<close>
  \<open>array_ufunc_try\<close> is the body of the \<^verbatim>\<open>try\<close>; the method returns what the body
  returns, or \<^verbatim>\<open>None\<close> when the body raises (what is printed is not modelled).
  \<^verbatim>\<open>np.asarray\<close> returns an array as it is.
\<close>

definition view_if_Variables :: "world \<Rightarrow> pyval \<Rightarrow> (exn + pyval) \<times> world" where
  "view_if_Variables w i = (if isinstance_Variables w i then ndarray_view w i False else (Inr i, w))"

definition view_if :: "world \<Rightarrow> bool \<times> pyval \<Rightarrow> (exn + pyval) \<times> world" where
  "view_if w vo = (if fst vo then ndarray_view w (snd vo) False else (Inr (snd vo), w))"

definition as_Variables_if :: "host \<Rightarrow> world \<Rightarrow> bool \<times> pyval \<Rightarrow> (exn + pyval) \<times> world" where
  "as_Variables_if H w vr =
     (if fst vr then
        (if isinstance_ndarray w (snd vr) then ndarray_view w (snd vr) True
         else
           (case host_asarray H w (snd vr) of
              (Inl e, w1) \<Rightarrow> (Inl e, w1)
            | (Inr arr, w1) \<Rightarrow> ndarray_view w1 arr True))
      else (Inr (snd vr), w))"

fun tuple_items :: "pyval \<Rightarrow> exn + pyval list" where
  "tuple_items (PTuple vs) = Inr vs"
| "tuple_items v = Inl (TypeError ''zip'')"

fun first_item :: "pyval list \<Rightarrow> exn + pyval" where
  "first_item (r # rs) = Inr r"
| "first_item [] = Inl (IndexError ''tuple index out of range'')"

definition array_ufunc_try ::
  "host \<Rightarrow> world \<Rightarrow> ufunc \<Rightarrow> string \<Rightarrow> pyval list \<Rightarrow> pyval list option \<Rightarrow> (exn + pyval) \<times> world" where
  "array_ufunc_try H w uf method inputs outputs =
     (case list_comprehension view_if_Variables w inputs of
        (Inl e, w1) \<Rightarrow> (Inl e, w1)
      | (Inr inputs', w1) \<Rightarrow>
          (let convout = (case outputs of
                            Some outs \<Rightarrow> map (isinstance_Variables w1) outs
                          | None \<Rightarrow> replicate (nout uf) True)
           in case (case outputs of
                      Some outs \<Rightarrow>
                        (case list_comprehension view_if w1 (zip convout outs) of
                           (Inl e, w2) \<Rightarrow> (Inl e, w2)
                         | (Inr outs', w2) \<Rightarrow> (Inr (Some outs'), w2))
                    | None \<Rightarrow> (Inr None, w1)) of
                (Inl e, w2) \<Rightarrow> (Inl e, w2)
              | (Inr out, w2) \<Rightarrow>
                  (case Variables_call_ufunc H w2 uf method inputs' out of
                     (Inl e, w3) \<Rightarrow> (Inl e, w3)
                   | (Inr results, w3) \<Rightarrow>
                       (case (if nout uf = 1 then Inr [results] else tuple_items results) of
                          Inl e \<Rightarrow> (Inl e, w3)
                        | Inr rs \<Rightarrow>
                            (case list_comprehension (as_Variables_if H) w3 (zip convout rs) of
                               (Inl e, w4) \<Rightarrow> (Inl e, w4)
                             | (Inr vs, w4) \<Rightarrow>
                                 if nout uf = 1 then (first_item vs, w4)
                                 else (Inr (PTuple vs), w4))))))"

definition Variables_array_ufunc ::
  "host \<Rightarrow> world \<Rightarrow> pyval \<Rightarrow> ufunc \<Rightarrow> string \<Rightarrow> pyval list \<Rightarrow> pyval list option \<Rightarrow> pyval \<times> world" where
  "Variables_array_ufunc H w self uf method inputs outputs =
     (case array_ufunc_try H w uf method inputs outputs of
        (Inl e, w') \<Rightarrow> (PNone, w')
      | (Inr r, w') \<Rightarrow> (r, w'))"

text \<open>
  \<^verbatim>\<open>v == other\<close> on a container \<open>v\<close>: \<^verbatim>\<open>ndarray.__eq__\<close> is \<^verbatim>\<open>np.equal(v, other)\<close>, and numpy
  hands a ufunc call with an operand that overrides \<^verbatim>\<open>__array_ufunc__\<close> to that override:
  \<^verbatim>\<open>v.__array_ufunc__(np.equal, '__call__', v, other)\<close>.
\<close>

definition Variables_eq :: "host \<Rightarrow> world \<Rightarrow> pyval \<Rightarrow> pyval \<Rightarrow> pyval \<times> world" where
  "Variables_eq H w v other = Variables_array_ufunc H w v np_equal ''__call__'' [v, other] None"

section \<open>Rendering\<close>

text \<open>
  \<^verbatim>\<open>
  # Expression
  def __str__(self):
      return str(self.values[0]) + " " + self.op + " " + str(self.values[1])
  # Variable
  def __str__(self):
      return self.name
  \<close>
  \<open>py_str\<close> is \<^verbatim>\<open>str(v)\<close>. The sum is evaluated from the left: the first operand is
  rendered, then \<^verbatim>\<open>self.op\<close> is appended (a \<^verbatim>\<open>TypeError\<close> when it is \<^verbatim>\<open>None\<close>), then the
  second operand is rendered.
\<close>

definition string_of_int :: "int \<Rightarrow> string" where
  "string_of_int i = (if i < 0 then ''-'' @ string_of_nat (nat (- i)) else string_of_nat (nat i))"

primrec py_str :: "nat \<Rightarrow> host \<Rightarrow> world \<Rightarrow> pyval \<Rightarrow> exn + string" where
  "py_str 0 H w v = Inl RecursionError"
| "py_str (Suc n) H w v =
     (case v of
        PInt i \<Rightarrow> Inr (string_of_int i)
      | PNpInt i \<Rightarrow> Inr (string_of_int i)
      | PBool b \<Rightarrow> Inr (if b then ''True'' else ''False'')
      | PRef a \<Rightarrow>
          (case obj_at w a of
             Some (Variable opr vs nm d) \<Rightarrow> Inr nm
           | Some (Expression opr vs) \<Rightarrow>
               (case vs of
                  [] \<Rightarrow> Inl (IndexError ''tuple index out of range'')
                | v0 # vs' \<Rightarrow>
                    (case py_str n H w v0 of
                       Inl e \<Rightarrow> Inl e
                     | Inr s0 \<Rightarrow>
                         (case opr of
                            None \<Rightarrow> Inl (TypeError ''+'')
                          | Some opname \<Rightarrow>
                              (case vs' of
                                 [] \<Rightarrow> Inl (IndexError ''tuple index out of range'')
                               | v1 # vs'' \<Rightarrow>
                                   (case py_str n H w v1 of
                                      Inl e \<Rightarrow> Inl e
                                    | Inr s1 \<Rightarrow> Inr (s0 @ '' '' @ opname @ '' '' @ s1))))))
           | _ \<Rightarrow> host_str H w v)
      | _ \<Rightarrow> host_str H w v)"

text \<open>A host that is never asked anything, for closed instances.\<close>

definition no_host :: host where
  "no_host = \<lparr>host_array_ufunc = (\<lambda>w uf m ins out. (Inr PNotImplemented, w)),
              host_eq = (\<lambda>w a b. (Inr PNotImplemented, w)),
              host_asarray = (\<lambda>w v. (Inl (TypeError ''asarray''), w)),
              host_str = (\<lambda>w v. Inr [])\<rparr>"

text \<open>The name the generator returns when the counter stands at \<open>k\<close>.\<close>

definition auto_name :: "nat \<Rightarrow> string" where
  "auto_name k = ''var_'' @ string_of_nat k"

text \<open>The names that derive from the counter value \<open>k\<close>: the generated name itself, and
  the names of the elements of a container whose prefix it is.\<close>

definition names_of_counter :: "nat \<Rightarrow> string set" where
  "names_of_counter k = insert (auto_name k) (range (\<lambda>i. auto_name k @ ''_'' @ string_of_nat i))"

text \<open>A store with two variables, for closed instances of the theorems below.\<close>

definition two_vars :: world where
  "two_vars = \<lparr>heap = [Variable None [] ''a'' (PDomain (DomainRange None None)),
                        Variable None [] ''b'' (PDomain (DomainRange None None))],
               varidx = 0\<rparr>"

definition empty_world :: world where
  "empty_world = \<lparr>heap = [], varidx = 0\<rparr>"

text \<open>
  Closed instances: a store holding \<^verbatim>\<open>a\<close>, \<^verbatim>\<open>b\<close> and \<^verbatim>\<open>a + b\<close>; and a store holding
  \<^verbatim>\<open>x\<close>, two distinct variables both named \<^verbatim>\<open>y\<close>, the sum of \<^verbatim>\<open>x\<close> and the second
  \<^verbatim>\<open>y\<close>, and the constraint that \<^verbatim>\<open>x\<close> equals the first \<^verbatim>\<open>y\<close>, with a Solver in which the
  first \<^verbatim>\<open>y\<close> is registered.
\<close>

definition unbounded :: pyval where
  "unbounded = PDomain (DomainRange None None)"

definition sum_world :: world where
  "sum_world = \<lparr>heap = [Variable None [] ''a'' unbounded,
                        Variable None [] ''b'' unbounded,
                        Expression (Some ''+'') [PRef 0, PRef 1]],
               varidx = 0\<rparr>"

definition dup_world :: world where
  "dup_world = \<lparr>heap = [Variable None [] ''x'' unbounded,
                        Variable None [] ''y'' unbounded,
                        Variable None [] ''y'' unbounded,
                        Expression (Some ''+'') [PRef 0, PRef 2],
                        Expression (Some ''='') [PRef 0, PRef 1]],
               varidx = 0\<rparr>"

definition y_registered :: Solver where
  "y_registered = \<lparr>conststore = [], variables = [(''y'', PRef 1)]\<rparr>"


text \<open>
  A store for lowering: \<^verbatim>\<open>a\<close> and \<^verbatim>\<open>b\<close> with domain \<^verbatim>\<open>range(0, 2)\<close>, another variable
  named \<^verbatim>\<open>a\<close> with domain \<^verbatim>\<open>range(5, 9)\<close>, and the constraint \<^verbatim>\<open>a + b == 1\<close>; the backend
  variables of \<^verbatim>\<open>a\<close> and \<^verbatim>\<open>b\<close>; and the adapter after \<^verbatim>\<open>a\<close>, and after \<^verbatim>\<open>a\<close> and \<^verbatim>\<open>b\<close>,
  have been lowered.
\<close>

definition lower_world :: world where
  "lower_world = \<lparr>heap = [Variable None [] ''a'' (PDomain (DomainRange (Some 0) (Some 2))),
                          Variable None [] ''b'' (PDomain (DomainRange (Some 0) (Some 2))),
                          Variable None [] ''a'' (PDomain (DomainRange (Some 5) (Some 9))),
                          Expression (Some ''+'') [PRef 0, PRef 1],
                          Expression (Some ''='') [PRef 3, PInt 1]],
                 varidx = 0\<rparr>"

definition lp_a :: lowered where "lp_a = LpVariable ''a'' (Some 0) 1 LpInteger"
definition lp_b :: lowered where "lp_b = LpVariable ''b'' (Some 0) 1 LpInteger"

definition a_lowered :: SolverPulp where
  "a_lowered = \<lparr>conststore = [], variables = [], lpvars = [(''a'', lp_a)]\<rparr>"

definition ab_lowered :: SolverPulp where
  "ab_lowered = \<lparr>conststore = [], variables = [], lpvars = [(''a'', lp_a), (''b'', lp_b)]\<rparr>"

text \<open>
  The variable at flat index \<open>i\<close> of a container built in the world \<open>w\<close> with the default
  domain and a generated prefix; and the world after \<^verbatim>\<open>v = Variables((2, 2))\<close> and
  \<^verbatim>\<open>v == 0\<close> in an empty one.
\<close>

definition container_var :: "world \<Rightarrow> nat \<Rightarrow> obj" where
  "container_var w i = Variable None [] (auto_name (varidx w) @ ''_'' @ string_of_nat i) unbounded"

definition eq_zero_world :: world where
  "eq_zero_world =
     snd (Variables_eq no_host (snd (Variables_new empty_world [2, 2] PNone None)) (PRef 4) (PInt 0))"

section \<open>Properties\<close>

subsection \<open>Expression construction\<close>

lemma check_operands_None:
  "check_operands w vs = None \<longleftrightarrow> (\<forall>v \<in> set vs. valid_operand w v)"
  by (induction vs) auto

lemma check_operands_first:
  "\<lbrakk>\<forall>u \<in> set pre. valid_operand w u; \<not> valid_operand w v\<rbrakk>
   \<Longrightarrow> check_operands w (pre @ v # post) = Some (AssertionError (operand_msg @ type_str w v))"
  by (induction pre) auto

lemma Expression_init_ok:
  assumes "\<forall>v \<in> set vs. valid_operand w v"
  shows "Expression_init w opr vs =
           (Inr (PRef (length (heap w))), w\<lparr>heap := heap w @ [Expression opr vs]\<rparr>)"
  using assms check_operands_None [of w vs]
  by (simp add: Expression_init_def alloc_def)

text \<open>
  C1. For Expression operands \<open>e1\<close>, \<open>e2\<close> and an integer \<open>n\<close>, \<^verbatim>\<open>e1 + e2\<close> and the
  reflected \<^verbatim>\<open>n + e1\<close> (which Python runs as \<^verbatim>\<open>e1.__radd__(n)\<close>) return a reference to a
  new 2-ary Expression with op \<^verbatim>\<open>"+"\<close> that holds the two operands in order, and
  \<^verbatim>\<open>e1 == e2\<close> returns a reference to a new 2-ary Expression with op \<^verbatim>\<open>"="\<close>: a
  reference, not a \<open>PBool\<close>. The world after each call is the world before it with the one
  new node appended to the store, so no object that existed has changed.
\<close>

theorem operators_build_nodes:
  assumes "isinstance_Expression w e1" and "isinstance_Expression w e2"
  shows "Expression_add w e1 e2 =
           (Inr (PRef (length (heap w))),
            w\<lparr>heap := heap w @ [Expression (Some ''+'') [e1, e2]]\<rparr>)
       \<and> Expression_radd w e1 (PInt n) =
           (Inr (PRef (length (heap w))),
            w\<lparr>heap := heap w @ [Expression (Some ''+'') [PInt n, e1]]\<rparr>)
       \<and> Expression_eq w e1 e2 =
           (Inr (PRef (length (heap w))),
            w\<lparr>heap := heap w @ [Expression (Some ''='') [e1, e2]]\<rparr>)"
  using assms
  by (simp add: Expression_add_def Expression_radd_def Expression_eq_def Expression_init_ok
      valid_operand_def)

theorem operators_build_nodes_witness:
  "isinstance_Expression two_vars (PRef 0) \<and> isinstance_Expression two_vars (PRef 1)
   \<and> Expression_add two_vars (PRef 0) (PRef 1) =
        (Inr (PRef 2), two_vars\<lparr>heap := heap two_vars @ [Expression (Some ''+'') [PRef 0, PRef 1]]\<rparr>)
   \<and> Expression_radd two_vars (PRef 0) (PInt 5) =
        (Inr (PRef 2), two_vars\<lparr>heap := heap two_vars @ [Expression (Some ''+'') [PInt 5, PRef 0]]\<rparr>)
   \<and> Expression_eq two_vars (PRef 0) (PRef 1) =
        (Inr (PRef 2), two_vars\<lparr>heap := heap two_vars @ [Expression (Some ''='') [PRef 0, PRef 1]]\<rparr>)"
proof -
  have a: "isinstance_Expression two_vars (PRef 0)" and b: "isinstance_Expression two_vars (PRef 1)"
    by (simp_all add: two_vars_def obj_at_def)
  have "length (heap two_vars) = 2" by (simp add: two_vars_def)
  with operators_build_nodes [OF a b, of 5] a b show ?thesis by simp
qed

text \<open>
  C7 as stated fails: the operand test is an \<^verbatim>\<open>assert\<close>, so a bad operand
  raises \<^verbatim>\<open>AssertionError\<close>, which is not a \<^verbatim>\<open>TypeError\<close> nor derived from it. Here
  \<^verbatim>\<open>Expression('+', 'x', 1)\<close> in an empty store.
\<close>

theorem Expression_init_TypeError_counterexample:
  "fst (Expression_init empty_world (Some ''+'') [PStr ''x'', PInt 1])
     = Inl (AssertionError (operand_msg @ type_str empty_world (PStr ''x'')))
   \<and> \<not> is_TypeError (AssertionError (operand_msg @ type_str empty_world (PStr ''x'')))"
  by (simp add: Expression_init_def valid_operand_def)

text \<open>
  C7, amended. The constructor checks its operands in order when it is called: at the
  first operand \<open>v\<close> that is neither an Expression nor an \<^verbatim>\<open>int\<close> nor a numpy integer it
  raises \<^verbatim>\<open>AssertionError\<close> with the message
  \<^verbatim>\<open>Can only build expressions out of expressions or integers. Got: <type of v>\<close>
  and builds nothing; and it returns a node if and only if every operand passes the test,
  so no node with a bad operand is left for lowering to find.
\<close>

theorem Expression_init_validates:
  "((\<forall>u \<in> set pre. valid_operand w u) \<and> \<not> valid_operand w v \<longrightarrow>
      Expression_init w opr (pre @ v # post)
        = (Inl (AssertionError (operand_msg @ type_str w v)), w))
   \<and> ((\<exists>r. fst (Expression_init w opr vs) = Inr r) \<longleftrightarrow> (\<forall>v \<in> set vs. valid_operand w v))"
proof
  show "(\<forall>u \<in> set pre. valid_operand w u) \<and> \<not> valid_operand w v \<longrightarrow>
      Expression_init w opr (pre @ v # post)
        = (Inl (AssertionError (operand_msg @ type_str w v)), w)"
    by (simp add: Expression_init_def check_operands_first)
  show "(\<exists>r. fst (Expression_init w opr vs) = Inr r) \<longleftrightarrow> (\<forall>v \<in> set vs. valid_operand w v)"
    using check_operands_None [of w vs]
    by (auto simp: Expression_init_def alloc_def split: option.splits)
qed

theorem Expression_init_validates_witness:
  "valid_operand two_vars (PRef 0) \<and> \<not> valid_operand two_vars PNone
   \<and> Expression_init two_vars (Some ''='') [PRef 0, PNone]
       = (Inl (AssertionError (operand_msg @ type_str two_vars PNone)), two_vars)
   \<and> valid_operand two_vars (PInt 1)
   \<and> fst (Expression_init two_vars (Some ''='') [PRef 0, PInt 1]) = Inr (PRef 2)"
proof -
  have v: "valid_operand two_vars (PRef 0)" "\<not> valid_operand two_vars PNone"
    "valid_operand two_vars (PInt 1)"
    by (simp_all add: valid_operand_def two_vars_def obj_at_def)
  from v Expression_init_validates [of "[PRef 0]" two_vars PNone "Some ''=''" "[]" "[PRef 0, PInt 1]"]
  have "Expression_init two_vars (Some ''='') [PRef 0, PNone]
       = (Inl (AssertionError (operand_msg @ type_str two_vars PNone)), two_vars)"
    and "\<exists>r. fst (Expression_init two_vars (Some ''='') [PRef 0, PInt 1]) = Inr r"
    by simp_all
  moreover have "fst (Expression_init two_vars (Some ''='') [PRef 0, PInt 1]) = Inr (PRef 2)"
    by (simp add: Expression_init_def valid_operand_def two_vars_def obj_at_def alloc_def)
  ultimately show ?thesis using v by simp
qed

subsection \<open>The stores the module builds\<close>

text \<open>The empty store is well-formed, and the constructors, views and assignments to
  \<^verbatim>\<open>flat\<close> keep a store well-formed.\<close>

lemma wf_from_append:
  "wf_from a (xs @ ys) \<longleftrightarrow> wf_from a xs \<and> wf_from (a + length xs) ys"
  by (induction xs arbitrary: a) auto

lemma wf_heap_alloc:
  "alloc w ob = (a, w') \<Longrightarrow>
     wf_heap w' \<longleftrightarrow> wf_heap w \<and> refs_below (length (heap w)) (operands ob)"
  by (auto simp: wf_heap_def alloc_def wf_from_append)

lemma refs_below_valid:
  "\<forall>v \<in> set vs. valid_operand w v \<Longrightarrow> refs_below (length (heap w)) vs"
proof (induction vs)
  case Nil
  then show ?case by simp
next
  case (Cons v vs)
  then show ?case
    by (cases v) (auto simp: valid_operand_def obj_at_def split: if_splits)
qed

lemma wf_heap_empty: "wf_heap empty_world"
  by (simp add: wf_heap_def empty_world_def)

lemma Expression_init_wf:
  assumes "wf_heap w"
  shows "wf_heap (snd (Expression_init w opr vs))"
proof (cases "check_operands w vs")
  case None
  then have "\<forall>v \<in> set vs. valid_operand w v" by (simp add: check_operands_None)
  from refs_below_valid [OF this] assms None
  show ?thesis by (auto simp: Expression_init_def wf_heap_alloc split: prod.splits)
next
  case (Some e)
  with assms show ?thesis by (simp add: Expression_init_def)
qed

lemma wf_heap_varidx: "wf_heap (w\<lparr>varidx := k\<rparr>) = wf_heap w"
  by (simp add: wf_heap_def)

lemma Variable_init_wf:
  assumes "wf_heap w"
  shows "wf_heap (snd (Variable_init w d nm))"
  using assms unfolding Variable_init_def Let_def Variable_new_name_def
  by (auto simp: wf_heap_varidx wf_heap_alloc split: option.splits sum.splits prod.splits)

lemma make_variables_wf:
  "wf_heap w \<Longrightarrow> wf_heap (snd (make_variables w d p is))"
proof (induction "is" arbitrary: w)
  case Nil
  then show ?case by simp
next
  case (Cons i "is")
  obtain r1 w1 where v: "Variable_init w d (Some (p @ ''_'' @ string_of_nat i)) = (r1, w1)"
    by (cases "Variable_init w d (Some (p @ ''_'' @ string_of_nat i))")
  with Variable_init_wf [OF Cons.prems, of d "Some (p @ ''_'' @ string_of_nat i)"]
  have w1: "wf_heap w1" by simp
  show ?case
  proof (cases r1)
    case (Inl e)
    with v w1 show ?thesis by simp
  next
    case (Inr x)
    with v Cons.IH [OF w1] show ?thesis
      by (cases "make_variables w1 d p is") (auto split: sum.splits)
  qed
qed

lemma Variables_new_wf:
  assumes "wf_heap w"
  shows "wf_heap (snd (Variables_new w sh d pre))"
proof -
  obtain p w1 where p: "(case pre of None \<Rightarrow> Variable_new_name w | Some q \<Rightarrow> (q, w)) = (p, w1)"
    by (cases "case pre of None \<Rightarrow> Variable_new_name w | Some q \<Rightarrow> (q, w)")
  with assms have "wf_heap w1"
    by (cases pre) (auto simp: Variable_new_name_def wf_heap_varidx)
  from make_variables_wf [OF this, of d p "[0..<prod_list sh]"] p
  show ?thesis
    by (auto simp: Variables_new_def wf_heap_alloc split: prod.splits sum.splits)
qed

lemma run_constructions_wf:
  "wf_heap w \<Longrightarrow> wf_heap (snd (run_constructions w cs))"
proof (induction cs arbitrary: w)
  case Nil
  then show ?case by simp
next
  case (Cons c cs)
  have "wf_heap (snd (construct w c))"
    using Cons.prems by (cases c) (simp_all add: Variable_init_wf Variables_new_wf)
  from Cons.IH [OF this] show ?case by (simp add: split_def Let_def)
qed


lemma wf_from_update:
  "wf_from k obs \<Longrightarrow> operands ob = [] \<Longrightarrow> wf_from k (obs[i := ob])"
proof (induction obs arbitrary: k i)
  case Nil
  then show ?case by simp
next
  case (Cons x obs)
  then show ?case by (cases i) auto
qed

lemma set_flat_wf: "wf_heap w \<Longrightarrow> set_flat w r xs = Inr w' \<Longrightarrow> wf_heap w'"
  by (cases r) (auto simp: wf_heap_def wf_from_update split: option.splits obj.splits)

lemma ndarray_view_wf: "wf_heap w \<Longrightarrow> wf_heap (snd (ndarray_view w r sub))"
  by (cases r) (auto simp: wf_heap_alloc split: option.splits obj.splits prod.splits)

subsection \<open>Domains from ranges\<close>

text \<open>
  C6. For integers \<open>lo < hi\<close>, \<^verbatim>\<open>DomainRange.fromrange(range(lo, hi))\<close> returns a domain
  whose \<^verbatim>\<open>min\<close> is \<open>lo\<close> and whose \<^verbatim>\<open>max\<close> is \<open>hi\<close>; for a range whose step is not 1 it
  raises: the failed \<^verbatim>\<open>assert r.step == 1, "Sparse ranges not implemented yet"\<close> is the
  error the specification calls UnsupportedDomainError.
\<close>

theorem fromrange_bounds:
  "(lo < hi \<longrightarrow> (\<exists>d. DomainRange_fromrange (py_range2 lo hi) = Inr (PDomain d)
                       \<and> min_d d = Some lo \<and> max_d d = Some hi))
   \<and> (step r \<noteq> 1 \<longrightarrow> DomainRange_fromrange (PRange r)
                       = Inl (AssertionError ''Sparse ranges not implemented yet''))"
  by (simp add: py_range2_def)

theorem fromrange_bounds_witness:
  "(0::int) < 2
   \<and> DomainRange_fromrange (py_range2 0 2) = Inr (PDomain (DomainRange (Some 0) (Some 2)))
   \<and> step (Range 0 10 2) \<noteq> 1
   \<and> DomainRange_fromrange (PRange (Range 0 10 2))
       = Inl (AssertionError ''Sparse ranges not implemented yet'')"
  using fromrange_bounds [of 0 2 "Range 0 10 2"] by (simp add: py_range2_def)


subsection \<open>Variables of an expression\<close>

lemma refs_below_mem: "refs_below a vs \<Longrightarrow> PRef b \<in> set vs \<Longrightarrow> b < a"
  by (induction a vs rule: refs_below.induct) auto

lemma wf_from_nth:
  "wf_from k obs \<Longrightarrow> i < length obs \<Longrightarrow> refs_below (k + i) (operands (obs ! i))"
proof (induction obs arbitrary: k i)
  case Nil
  then show ?case by simp
next
  case (Cons ob obs)
  show ?case
  proof (cases i)
    case 0
    with Cons.prems show ?thesis by simp
  next
    case (Suc j)
    with Cons.prems have "wf_from (Suc k) obs" and "j < length obs" by simp_all
    from Cons.IH [OF this] Suc show ?thesis by simp
  qed
qed

lemma wf_heap_refs:
  assumes "wf_heap w" and "obj_at w a = Some ob" and "PRef b \<in> set (operands ob)"
  shows "b < a \<and> a < length (heap w)"
proof -
  from assms(2) have a: "a < length (heap w)" and ob: "ob = heap w ! a"
    by (auto simp: obj_at_def split: if_splits)
  from wf_from_nth [of 0 "heap w" a] assms(1) a ob have "refs_below a (operands ob)"
    by (simp add: wf_heap_def)
  with assms(3) a show ?thesis by (auto dest: refs_below_mem)
qed

lemma obj_at_extend:
  "a < length (heap w) \<Longrightarrow> obj_at (w\<lparr>heap := heap w @ ext\<rparr>) a = obj_at w a"
  by (simp add: obj_at_def nth_append)

lemma isinstance_Expression_ref:
  "isinstance_Expression w v \<Longrightarrow> \<exists>a. v = PRef a \<and> a < length (heap w)"
  by (cases v) (auto simp: obj_at_def split: if_splits)

lemma Expression_variables_extend:
  "wf_heap w \<Longrightarrow> a < length (heap w) \<Longrightarrow>
     Expression_variables n (w\<lparr>heap := heap w @ ext\<rparr>) (PRef a) = Expression_variables n w (PRef a)"
proof (induction n arbitrary: a)
  case 0
  then show ?case by simp
next
  case (Suc n)
  let ?w' = "w\<lparr>heap := heap w @ ext\<rparr>"
  from Suc.prems have at: "obj_at ?w' a = obj_at w a" by (simp add: obj_at_extend)
  from Suc.prems obtain ob where ob: "obj_at w a = Some ob" by (auto simp: obj_at_def)
  show ?case
  proof (cases ob)
    case (Expression opr vs)
    have below: "b < length (heap w)" if "PRef b \<in> set vs" for b
      using wf_heap_refs [OF Suc.prems(1) ob, of b] that Expression by auto
    have f: "filter (isinstance_Expression ?w') vs = filter (isinstance_Expression w) vs"
    proof (rule filter_cong [OF refl])
      fix v assume v: "v \<in> set vs"
      show "isinstance_Expression ?w' v = isinstance_Expression w v"
      proof (cases v)
        case (PRef b)
        with v below show ?thesis by (simp add: obj_at_extend)
      qed simp_all
    qed
    have m: "map (Expression_variables n ?w') (filter (isinstance_Expression w) vs)
           = map (Expression_variables n w) (filter (isinstance_Expression w) vs)"
    proof (rule map_cong [OF refl])
      fix v assume "v \<in> set (filter (isinstance_Expression w) vs)"
      then have v: "v \<in> set vs" and e: "isinstance_Expression w v" by simp_all
      from e obtain b where b: "v = PRef b" by (auto dest: isinstance_Expression_ref)
      with v below have "b < length (heap w)" by simp
      from Suc.IH [OF Suc.prems(1) this] b
      show "Expression_variables n ?w' v = Expression_variables n w v" by simp
    qed
    have l: "Expression_variables (Suc n) ?w' (PRef a)
           = concat_results (map (Expression_variables n ?w') (filter (isinstance_Expression ?w') vs))"
      using at ob Expression by simp
    have r: "Expression_variables (Suc n) w (PRef a)
           = concat_results (map (Expression_variables n w) (filter (isinstance_Expression w) vs))"
      using ob Expression by simp
    show ?thesis unfolding l r f m ..
  next
    case (Variable opr vs nm d)
    with at ob show ?thesis by simp
  next
    case (Ndarray sub dt sh xs)
    with at ob show ?thesis by simp
  qed
qed

lemma concat_results_mono:
  "concat_results (map f l) = Inr xs \<Longrightarrow> (\<And>v ys. v \<in> set l \<Longrightarrow> f v = Inr ys \<Longrightarrow> g v = Inr ys)
   \<Longrightarrow> concat_results (map g l) = Inr xs"
proof (induction l arbitrary: xs)
  case Nil
  then show ?case by simp
next
  case (Cons v l)
  from Cons.prems(1) obtain ys zs where fv: "f v = Inr ys"
    and rest: "concat_results (map f l) = Inr zs" and xs: "xs = ys @ zs"
    by (cases "f v"; cases "concat_results (map f l)") auto
  from Cons.prems(2) [of v ys] fv have "g v = Inr ys" by simp
  moreover from Cons.IH [OF rest] Cons.prems(2) have "concat_results (map g l) = Inr zs" by simp
  ultimately show ?case using xs by simp
qed

lemma concat_results_total:
  "(\<And>v. v \<in> set l \<Longrightarrow> \<exists>ys. f v = Inr ys) \<Longrightarrow> \<exists>xs. concat_results (map f l) = Inr xs"
proof (induction l)
  case Nil
  then show ?case by simp
next
  case (Cons v l)
  from Cons.prems [of v] obtain ys where "f v = Inr ys" by auto
  moreover from Cons.IH Cons.prems obtain zs where "concat_results (map f l) = Inr zs" by auto
  ultimately show ?case by simp
qed

lemma Expression_variables_Suc:
  "Expression_variables n w v = Inr xs \<Longrightarrow> Expression_variables (Suc n) w v = Inr xs"
proof (induction n arbitrary: v xs)
  case 0
  then show ?case by simp
next
  case (Suc n)
  show ?case
  proof (cases v)
    case (PRef a)
    show ?thesis
    proof (cases "obj_at w a")
      case None
      with Suc.prems PRef show ?thesis by simp
    next
      case (Some ob)
      show ?thesis
      proof (cases ob)
        case (Expression opr vs)
        with Suc.prems PRef Some
        have "concat_results (map (Expression_variables n w) (filter (isinstance_Expression w) vs)) = Inr xs"
          by simp
        from concat_results_mono [OF this, of "Expression_variables (Suc n) w"] Suc.IH
        have "concat_results (map (Expression_variables (Suc n) w) (filter (isinstance_Expression w) vs)) = Inr xs"
          by blast
        with PRef Some Expression show ?thesis by simp
      next
        case (Variable opr vs nm d)
        with Suc.prems PRef Some show ?thesis by simp
      next
        case (Ndarray sub dt sh ys)
        with Suc.prems PRef Some show ?thesis by simp
      qed
    qed
  qed (use Suc.prems in simp_all)
qed

lemma Expression_variables_mono:
  "n \<le> m \<Longrightarrow> Expression_variables n w v = Inr xs \<Longrightarrow> Expression_variables m w v = Inr xs"
  by (induction m) (auto simp: le_Suc_eq dest: Expression_variables_Suc simp del: Expression_variables.simps)

lemma Expression_variables_total:
  "wf_heap w \<Longrightarrow> isinstance_Expression w (PRef a) \<Longrightarrow>
     \<exists>xs. Expression_variables (Suc a) w (PRef a) = Inr xs"
proof (induction a rule: less_induct)
  case (less a)
  from less.prems(2) obtain ob where ob: "obj_at w a = Some ob"
    by (auto split: option.splits)
  show ?case
  proof (cases ob)
    case (Expression opr vs)
    have "\<exists>ys. Expression_variables a w v = Inr ys"
      if "v \<in> set (filter (isinstance_Expression w) vs)" for v
    proof -
      from that have v: "v \<in> set vs" and e: "isinstance_Expression w v" by simp_all
      from e obtain b where b: "v = PRef b" by (auto dest: isinstance_Expression_ref)
      with v wf_heap_refs [OF less.prems(1) ob, of b] Expression have ba: "b < a" by simp
      from less.IH [OF ba less.prems(1)] e b obtain ys
        where "Expression_variables (Suc b) w v = Inr ys" by auto
      with ba Expression_variables_mono [of "Suc b" a w v ys] show ?thesis by auto
    qed
    from concat_results_total [of "filter (isinstance_Expression w) vs" "Expression_variables a w"] this
    obtain xs where
      "concat_results (map (Expression_variables a w) (filter (isinstance_Expression w) vs)) = Inr xs"
      by blast
    with ob Expression show ?thesis by simp
  next
    case (Variable opr vs nm d)
    with ob show ?thesis by simp
  next
    case (Ndarray sub dt sh xs)
    with ob less.prems(2) show ?thesis by simp
  qed
qed

lemma Expression_variables_enough:
  assumes "wf_heap w" and "isinstance_Expression w v"
  shows "\<exists>xs. \<forall>n \<ge> length (heap w). Expression_variables n w v = Inr xs"
proof -
  from assms(2) obtain a where a: "v = PRef a" "a < length (heap w)"
    by (auto dest: isinstance_Expression_ref)
  from Expression_variables_total [OF assms(1)] assms(2) a obtain xs
    where "Expression_variables (Suc a) w v = Inr xs" by auto
  with a have "\<forall>n \<ge> length (heap w). Expression_variables n w v = Inr xs"
    by (auto intro: Expression_variables_mono [of "Suc a"])
  then show ?thesis ..
qed


text \<open>
  C5. In a store built by the constructors, for Expressions \<open>e1\<close> and \<open>e2\<close> the sum
  \<^verbatim>\<open>e1 + e2\<close> is built, and with any recursion depth of at least the size of the store
  the three calls return: \<^verbatim>\<open>(e1 + e2).variables()\<close> is \<^verbatim>\<open>e1.variables()\<close> followed by
  \<^verbatim>\<open>e2.variables()\<close>, nothing removed. For a Variable \<open>v\<close>, \<^verbatim>\<open>v.variables()\<close> is \<^verbatim>\<open>[v]\<close>.
\<close>

theorem variables_of_sum:
  assumes "wf_heap w" and "isinstance_Expression w e1" and "isinstance_Expression w e2"
  shows "(\<exists>r w' xs ys. Expression_add w e1 e2 = (Inr r, w')
            \<and> (\<forall>n \<ge> length (heap w).
                  Expression_variables n w' e1 = Inr xs
                \<and> Expression_variables n w' e2 = Inr ys
                \<and> Expression_variables (Suc n) w' r = Inr (xs @ ys)))
       \<and> (isinstance_Variable w v \<longrightarrow> Expression_variables (Suc n) w v = Inr [v])"
proof
  let ?w' = "w\<lparr>heap := heap w @ [Expression (Some ''+'') [e1, e2]]\<rparr>"
  let ?r = "PRef (length (heap w))"
  have add: "Expression_add w e1 e2 = (Inr ?r, ?w')"
    using assms(2,3) by (simp add: Expression_add_def Expression_init_ok valid_operand_def)
  from assms(2) obtain a1 where a1: "e1 = PRef a1" "a1 < length (heap w)"
    by (auto dest: isinstance_Expression_ref)
  from assms(3) obtain a2 where a2: "e2 = PRef a2" "a2 < length (heap w)"
    by (auto dest: isinstance_Expression_ref)
  from Expression_variables_enough [OF assms(1,2)] obtain xs
    where xs: "\<forall>n \<ge> length (heap w). Expression_variables n w e1 = Inr xs" ..
  from Expression_variables_enough [OF assms(1,3)] obtain ys
    where ys: "\<forall>n \<ge> length (heap w). Expression_variables n w e2 = Inr ys" ..
  have e1': "Expression_variables n ?w' e1 = Expression_variables n w e1" for n
    using Expression_variables_extend [OF assms(1) a1(2)] a1(1) by simp
  have e2': "Expression_variables n ?w' e2 = Expression_variables n w e2" for n
    using Expression_variables_extend [OF assms(1) a2(2)] a2(1) by simp
  have i1: "isinstance_Expression ?w' e1" and i2: "isinstance_Expression ?w' e2"
    using assms(2,3) a1 a2 by (simp_all add: obj_at_extend)
  have r: "Expression_variables (Suc n) ?w' ?r
             = concat_results [Expression_variables n ?w' e1, Expression_variables n ?w' e2]" for n
    using i1 i2 by (simp add: obj_at_def)
  have "\<forall>n \<ge> length (heap w).
                  Expression_variables n ?w' e1 = Inr xs
                \<and> Expression_variables n ?w' e2 = Inr ys
                \<and> Expression_variables (Suc n) ?w' ?r = Inr (xs @ ys)"
    using xs ys by (simp add: r e1' e2' del: Expression_variables.simps)
  with add show "\<exists>r w' xs ys. Expression_add w e1 e2 = (Inr r, w')
            \<and> (\<forall>n \<ge> length (heap w).
                  Expression_variables n w' e1 = Inr xs
                \<and> Expression_variables n w' e2 = Inr ys
                \<and> Expression_variables (Suc n) w' r = Inr (xs @ ys))" by blast
  show "isinstance_Variable w v \<longrightarrow> Expression_variables (Suc n) w v = Inr [v]"
    by (cases v) (auto split: option.splits obj.splits)
qed

theorem variables_of_sum_witness:
  "wf_heap sum_world \<and> isinstance_Expression sum_world (PRef 2)
   \<and> isinstance_Expression sum_world (PRef 0)
   \<and> Expression_add sum_world (PRef 2) (PRef 0)
        = (Inr (PRef 3), sum_world\<lparr>heap := heap sum_world @ [Expression (Some ''+'') [PRef 2, PRef 0]]\<rparr>)
   \<and> Expression_variables 3 (snd (Expression_add sum_world (PRef 2) (PRef 0))) (PRef 2)
        = Inr [PRef 0, PRef 1]
   \<and> Expression_variables 3 (snd (Expression_add sum_world (PRef 2) (PRef 0))) (PRef 0)
        = Inr [PRef 0]
   \<and> Expression_variables 4 (snd (Expression_add sum_world (PRef 2) (PRef 0))) (PRef 3)
        = Inr [PRef 0, PRef 1, PRef 0]
   \<and> isinstance_Variable sum_world (PRef 1)
   \<and> Expression_variables 1 sum_world (PRef 1) = Inr [PRef 1]"
proof -
  have h: "wf_heap sum_world" "isinstance_Expression sum_world (PRef 2)"
    "isinstance_Expression sum_world (PRef 0)"
    by code_simp+
  have l: "length (heap sum_world) = 3" by (simp add: sum_world_def)
  have a: "Expression_add sum_world (PRef 2) (PRef 0)
        = (Inr (PRef 3), sum_world\<lparr>heap := heap sum_world @ [Expression (Some ''+'') [PRef 2, PRef 0]]\<rparr>)"
    using h by (simp add: Expression_add_def Expression_init_ok valid_operand_def l)
  have v: "isinstance_Variable sum_world (PRef 1)" by code_simp
  from variables_of_sum [OF h, of "PRef 1" 0] v a l
  obtain xs ys where
    "Expression_variables 3 (snd (Expression_add sum_world (PRef 2) (PRef 0))) (PRef 2) = Inr xs"
    "Expression_variables 3 (snd (Expression_add sum_world (PRef 2) (PRef 0))) (PRef 0) = Inr ys"
    "Expression_variables 4 (snd (Expression_add sum_world (PRef 2) (PRef 0))) (PRef 3) = Inr (xs @ ys)"
    and s: "Expression_variables 1 sum_world (PRef 1) = Inr [PRef 1]"
    by (auto simp del: Expression_variables.simps)
  moreover have
    "Expression_variables 3 (snd (Expression_add sum_world (PRef 2) (PRef 0))) (PRef 2) = Inr [PRef 0, PRef 1]"
    "Expression_variables 3 (snd (Expression_add sum_world (PRef 2) (PRef 0))) (PRef 0) = Inr [PRef 0]"
    by code_simp+
  ultimately have
    "Expression_variables 4 (snd (Expression_add sum_world (PRef 2) (PRef 0))) (PRef 3)
        = Inr [PRef 0, PRef 1, PRef 0]" by simp
  with h a v s \<open>Expression_variables 3 _ (PRef 2) = Inr [PRef 0, PRef 1]\<close>
    \<open>Expression_variables 3 _ (PRef 0) = Inr [PRef 0]\<close>
  show ?thesis by (simp del: Expression_variables.simps)
qed


subsection \<open>Registering constraints\<close>

lemma attr_name_error: "attr_name w x = Inl e \<Longrightarrow> e = AttributeError ''name''"
  by (cases x) (auto split: option.splits obj.splits)

lemma map_of_dict_set:
  "map_of (dict_set k v kvs) k' = (if k' = k then Some v else map_of kvs k')"
  by (induction kvs) auto

lemma register_variables_keeps:
  "register_variables w vars xs = (r, vars') \<Longrightarrow> map_of vars k = Some u \<Longrightarrow> map_of vars' k = Some u"
proof (induction xs arbitrary: vars)
  case Nil
  then show ?case by simp
next
  case (Cons x xs)
  show ?case
  proof (cases "attr_name w x")
    case (Inl e)
    with Cons.prems show ?thesis by simp
  next
    case (Inr nx)
    show ?thesis
    proof (cases "map_of vars nx")
      case None
      with Cons.prems Inr have "register_variables w (dict_set nx x vars) xs = (r, vars')" by simp
      moreover from None Cons.prems(2) have "map_of (dict_set nx x vars) k = Some u"
        by (auto simp: map_of_dict_set)
      ultimately show ?thesis by (rule Cons.IH)
    next
      case (Some y)
      with Cons.prems Inr Cons.IH [of vars] show ?thesis by (auto split: if_splits)
    qed
  qed
qed

lemma register_variables_duplicate:
  "\<lbrakk>\<forall>x \<in> set xs. isinstance_Variable w x; v \<in> set xs; attr_name w v = Inr nm;
    map_of vars nm = Some u; u \<noteq> v\<rbrakk>
   \<Longrightarrow> fst (register_variables w vars xs) = Inl (ValueError duplicate_msg)"
proof (induction xs arbitrary: vars)
  case Nil
  then show ?case by simp
next
  case (Cons x xs)
  from Cons.prems(1) obtain nx where nx: "attr_name w x = Inr nx"
    by (cases x) (auto split: option.splits obj.splits)
  show ?case
  proof (cases "map_of vars nx")
    case None
    with Cons.prems nx have ne: "nm \<noteq> nx" and vx: "v \<noteq> x" by auto
    with Cons.prems have "v \<in> set xs" and "map_of (dict_set nx x vars) nm = Some u"
      by (auto simp: map_of_dict_set)
    with Cons.IH [of "dict_set nx x vars"] Cons.prems nx None show ?thesis by simp
  next
    case (Some y)
    show ?thesis
    proof (cases "y = x")
      case True
      with Cons.prems nx Some have "v \<noteq> x" by auto
      with Cons.prems have "v \<in> set xs" by simp
      with Cons.IH [of vars] Cons.prems nx Some True show ?thesis by simp
    next
      case False
      with nx Some show ?thesis by simp
    qed
  qed
qed

lemma register_variables_ok:
  "\<lbrakk>\<forall>x \<in> set xs. \<exists>nx. attr_name w x = Inr nx \<and> (map_of vars nx = None \<or> map_of vars nx = Some x);
    \<forall>x \<in> set xs. \<forall>y \<in> set xs. attr_name w x = attr_name w y \<longrightarrow> x = y\<rbrakk>
   \<Longrightarrow> fst (register_variables w vars xs) = Inr ()"
proof (induction xs arbitrary: vars)
  case Nil
  then show ?case by simp
next
  case (Cons x xs)
  from Cons.prems(1) obtain nx where nx: "attr_name w x = Inr nx"
    and mx: "map_of vars nx = None \<or> map_of vars nx = Some x" by auto
  have inj: "\<forall>a \<in> set xs. \<forall>b \<in> set xs. attr_name w a = attr_name w b \<longrightarrow> a = b"
    using Cons.prems(2) by simp
  show ?case
  proof (cases "map_of vars nx")
    case None
    have "\<exists>ny. attr_name w y = Inr ny
            \<and> (map_of (dict_set nx x vars) ny = None \<or> map_of (dict_set nx x vars) ny = Some y)"
      if y: "y \<in> set xs" for y
    proof -
      from Cons.prems(1) y obtain ny where ny: "attr_name w y = Inr ny"
        and my: "map_of vars ny = None \<or> map_of vars ny = Some y" by auto
      show ?thesis
      proof (cases "ny = nx")
        case True
        with nx ny Cons.prems(2) y have "y = x" by simp
        with ny True show ?thesis by (simp add: map_of_dict_set)
      next
        case False
        with ny my show ?thesis by (simp add: map_of_dict_set)
      qed
    qed
    with Cons.IH [of "dict_set nx x vars"] inj nx None show ?thesis by simp
  next
    case (Some y)
    with mx have "y = x" by simp
    with Cons.IH [of vars] Cons.prems(1) inj nx Some show ?thesis by simp
  qed
qed

lemma register_variables_failed:
  "register_variables w vars xs = (Inl (ValueError m), vars') \<Longrightarrow>
   \<exists>pre v post nm u. xs = pre @ v # post \<and> attr_name w v = Inr nm
      \<and> map_of vars' nm = Some u \<and> u \<noteq> v
      \<and> (\<forall>x \<in> set pre. \<exists>nx. attr_name w x = Inr nx \<and> map_of vars' nx = Some x)"
proof (induction xs arbitrary: vars)
  case Nil
  then show ?case by simp
next
  case (Cons x xs)
  from Cons.prems obtain nx where nx: "attr_name w x = Inr nx"
    by (cases "attr_name w x") (auto dest: attr_name_error)
  have step: ?case
    if rec: "register_variables w vars1 xs = (Inl (ValueError m), vars')"
      and reg: "map_of vars1 nx = Some x" for vars1
  proof -
    from Cons.IH [OF rec] obtain pre v post nm u where
      p: "xs = pre @ v # post" "attr_name w v = Inr nm" "map_of vars' nm = Some u" "u \<noteq> v"
        "\<forall>y \<in> set pre. \<exists>ny. attr_name w y = Inr ny \<and> map_of vars' ny = Some y"
      by blast
    from register_variables_keeps [OF rec reg] have "map_of vars' nx = Some x" .
    with p nx have "\<forall>y \<in> set (x # pre). \<exists>ny. attr_name w y = Inr ny \<and> map_of vars' ny = Some y"
      by simp
    moreover from p have "x # xs = (x # pre) @ v # post" by simp
    ultimately show ?thesis using p(2,3,4) by blast
  qed
  show ?case
  proof (cases "map_of vars nx")
    case None
    with Cons.prems nx
    have "register_variables w (dict_set nx x vars) xs = (Inl (ValueError m), vars')" by simp
    then show ?thesis by (rule step) (simp add: map_of_dict_set)
  next
    case (Some y)
    show ?thesis
    proof (cases "y = x")
      case True
      with Cons.prems nx Some have "register_variables w vars xs = (Inl (ValueError m), vars')"
        by simp
      then show ?thesis using Some True by (intro step) simp_all
    next
      case False
      with Cons.prems nx Some have "vars' = vars" by simp
      with nx Some False have "x # xs = [] @ x # xs \<and> attr_name w x = Inr nx
          \<and> map_of vars' nx = Some y \<and> y \<noteq> x
          \<and> (\<forall>z \<in> set []. \<exists>nz. attr_name w z = Inr nz \<and> map_of vars' nz = Some z)" by simp
      then show ?thesis by blast
    qed
  qed
qed

lemma concat_results_mem:
  "concat_results rs = Inr xs \<Longrightarrow> x \<in> set xs \<Longrightarrow> \<exists>ys. Inr ys \<in> set rs \<and> x \<in> set ys"
proof (induction rs arbitrary: xs rule: concat_results.induct)
  case 1
  then show ?case by simp
next
  case (2 e rs)
  then show ?case by simp
next
  case (3 ys rs)
  from "3.prems"(1) obtain zs where zs: "concat_results rs = Inr zs" and xs: "xs = ys @ zs"
    by (cases "concat_results rs") auto
  from "3.prems"(2) xs consider "x \<in> set ys" | "x \<in> set zs" by auto
  then show ?case
  proof cases
    case 1
    then show ?thesis by auto
  next
    case 2
    from "3.IH" [OF zs 2] show ?thesis by auto
  qed
qed

lemma Expression_variables_are_Variables:
  "Expression_variables n w v = Inr xs \<Longrightarrow> x \<in> set xs \<Longrightarrow> isinstance_Variable w x"
proof (induction n arbitrary: v xs)
  case 0
  then show ?case by simp
next
  case (Suc n)
  from Suc.prems(1) obtain a ob where v: "v = PRef a" and ob: "obj_at w a = Some ob"
    by (cases v; cases "obj_at w (case v of PRef a \<Rightarrow> a | _ \<Rightarrow> 0)") auto
  show ?case
  proof (cases ob)
    case (Expression opr vs)
    with Suc.prems(1) v ob
    have "concat_results (map (Expression_variables n w) (filter (isinstance_Expression w) vs)) = Inr xs"
      by simp
    from concat_results_mem [OF this Suc.prems(2)] obtain ys
      where ys: "Inr ys \<in> set (map (Expression_variables n w) (filter (isinstance_Expression w) vs))"
        and x: "x \<in> set ys" by blast
    from ys obtain u where "Inr ys = Expression_variables n w u" by auto
    then have "Expression_variables n w u = Inr ys" by simp
    from this x show ?thesis by (rule Suc.IH)
  next
    case (Variable opr vs nm d)
    with Suc.prems v ob show ?thesis by auto
  next
    case (Ndarray sub dt sh ys)
    with Suc.prems v ob show ?thesis by simp
  qed
qed


lemma not_Variables_if_Expression:
  "isinstance_Expression w c \<Longrightarrow> \<not> isinstance_Variables w c \<and> c \<noteq> PNone \<and> \<not> isinstance_np_integer c"
  by (cases c) (auto split: option.splits obj.splits)

lemma add_constraint_Expression:
  assumes "isinstance_Expression w c"
  shows "Solver_add_constraint (Suc n) w s c =
     (case Expression_variables n w c of
           Inl e \<Rightarrow> (Inl e, s)
         | Inr xs \<Rightarrow>
             (case register_variables w (variables s) xs of
                (Inl e, vars) \<Rightarrow> (Inl e, s\<lparr>variables := vars\<rparr>)
              | (Inr u, vars) \<Rightarrow>
                  (Inr (), s\<lparr>variables := vars, conststore := conststore s @ [c]\<rparr>)))"
  using not_Variables_if_Expression [OF assms] by simp

lemma add_constraint_Expression_cases:
  assumes "isinstance_Expression w c"
    and "Solver_add_constraint (Suc n) w s c = (Inl (ValueError m), s')"
  shows "\<exists>xs. Expression_variables n w c = Inr xs
           \<and> register_variables w (variables s) xs = (Inl (ValueError m), variables s')
           \<and> conststore s' = conststore s
       \<or> Expression_variables n w c = Inl (ValueError m)"
  using assms(2) unfolding add_constraint_Expression [OF assms(1)]
  by (auto split: sum.splits prod.splits)

lemma Expression_variables_error:
  "Expression_variables n w v = Inl e \<Longrightarrow> e = RecursionError \<or> e = AttributeError ''variables''"
proof (induction n arbitrary: v)
  case 0
  then show ?case by simp
next
  case (Suc n)
  have cr: "\<exists>u. Expression_variables n w u = Inl e" if "concat_results (map (Expression_variables n w) l) = Inl e" for l
    using that
  proof (induction l)
    case Nil
    then show ?case by simp
  next
    case (Cons u l)
    then show ?case
      by (cases "Expression_variables n w u"; cases "concat_results (map (Expression_variables n w) l)") auto
  qed
  show ?case
  proof (cases v)
    case (PRef a)
    show ?thesis
    proof (cases "obj_at w a")
      case None
      with Suc.prems PRef show ?thesis by simp
    next
      case (Some ob)
      show ?thesis
      proof (cases ob)
        case (Expression opr vs)
        with Suc.prems PRef Some cr Suc.IH show ?thesis by auto
      next
        case (Variable opr vs nm d)
        with Suc.prems PRef Some show ?thesis by simp
      next
        case (Ndarray sub dt sh ys)
        with Suc.prems PRef Some show ?thesis by simp
      qed
    qed
  qed (use Suc.prems in simp_all)
qed

lemma add_constraint_ignores:
  "c = PNone \<or> isinstance_np_integer c \<Longrightarrow> Solver_add_constraint (Suc n) w s c = (Inr (), s)"
  by auto


text \<open>
  C3 fails on the code for a plain Python integer. The guard of \<^verbatim>\<open>add_constraint\<close> is
  \<^verbatim>\<open>c is None or isinstance(c, np.integer)\<close>, and an \<^verbatim>\<open>int\<close> is no \<^verbatim>\<open>np.integer\<close>: the
  call \<^verbatim>\<open>add_constraint(i)\<close> goes on to \<^verbatim>\<open>c.variables()\<close> and raises \<^verbatim>\<open>AttributeError\<close>.
  The Solver is left unchanged, but the call does not return normally. (\<^verbatim>\<open>None\<close> and numpy
  integers are ignored, as \<open>add_constraint_ignores\<close> shows; the other two integer tests of
  the module, in \<^verbatim>\<open>Expression.__init__\<close> and \<^verbatim>\<open>_convert_constraint\<close>, accept both \<^verbatim>\<open>int\<close>
  and \<^verbatim>\<open>np.integer\<close>.)
\<close>

theorem add_constraint_int_raises:
  "Solver_add_constraint (Suc (Suc n)) w s (PInt i) = (Inl (AttributeError ''variables''), s)"
  by simp


text \<open>
  C4. Let \<open>c\<close> be an Expression whose variables are \<open>xs\<close>. If some \<open>v\<close> of \<open>xs\<close> has a name
  that the Solver maps to another object \<open>u\<close>, \<^verbatim>\<open>add_constraint(c)\<close> raises the
  \<^verbatim>\<open>ValueError\<close> "Two variables with the same name in the same model" (the error the
  specification calls DuplicateVariableNameError). If every variable of \<open>c\<close> has a name
  that is unregistered or registered to that very object, and no two distinct variables of
  \<open>c\<close> share a name, the call raises nothing and appends \<open>c\<close> to the constraint list.
\<close>

theorem add_constraint_duplicate_name:
  assumes "isinstance_Expression w c" and "Expression_variables n w c = Inr xs"
  shows "(v \<in> set xs \<and> attr_name w v = Inr nm \<and> map_of (variables s) nm = Some u \<and> u \<noteq> v
            \<longrightarrow> fst (Solver_add_constraint (Suc n) w s c) = Inl (ValueError duplicate_msg))
       \<and> ((\<forall>x \<in> set xs. \<exists>nx. attr_name w x = Inr nx
                \<and> (map_of (variables s) nx = None \<or> map_of (variables s) nx = Some x))
          \<and> (\<forall>x \<in> set xs. \<forall>y \<in> set xs. attr_name w x = attr_name w y \<longrightarrow> x = y)
            \<longrightarrow> fst (Solver_add_constraint (Suc n) w s c) = Inr ()
              \<and> conststore (snd (Solver_add_constraint (Suc n) w s c)) = conststore s @ [c])"
proof -
  obtain r vars' where reg: "register_variables w (variables s) xs = (r, vars')"
    by (cases "register_variables w (variables s) xs")
  have add: "Solver_add_constraint (Suc n) w s c =
      (case r of Inl e \<Rightarrow> (Inl e, s\<lparr>variables := vars'\<rparr>)
       | Inr u \<Rightarrow> (Inr (), s\<lparr>variables := vars', conststore := conststore s @ [c]\<rparr>))"
    unfolding add_constraint_Expression [OF assms(1)] by (simp add: assms(2) reg)
  have dup: "fst (Solver_add_constraint (Suc n) w s c) = Inl (ValueError duplicate_msg)"
    if "v \<in> set xs \<and> attr_name w v = Inr nm \<and> map_of (variables s) nm = Some u \<and> u \<noteq> v"
  proof -
    from that register_variables_duplicate [of xs w v nm "variables s" u]
      Expression_variables_are_Variables [OF assms(2)]
    have "fst (register_variables w (variables s) xs) = Inl (ValueError duplicate_msg)" by blast
    with reg have "r = Inl (ValueError duplicate_msg)" by simp
    then show ?thesis unfolding add by simp
  qed
  have ok: "fst (Solver_add_constraint (Suc n) w s c) = Inr ()
              \<and> conststore (snd (Solver_add_constraint (Suc n) w s c)) = conststore s @ [c]"
    if "(\<forall>x \<in> set xs. \<exists>nx. attr_name w x = Inr nx
                \<and> (map_of (variables s) nx = None \<or> map_of (variables s) nx = Some x))
          \<and> (\<forall>x \<in> set xs. \<forall>y \<in> set xs. attr_name w x = attr_name w y \<longrightarrow> x = y)"
  proof -
    from that have "fst (register_variables w (variables s) xs) = Inr ()"
      by (intro register_variables_ok) blast+
    with reg have "r = Inr ()" by simp
    then show ?thesis unfolding add by simp
  qed
  from dup ok show ?thesis by blast
qed


theorem add_constraint_duplicate_name_witness:
  "isinstance_Expression dup_world (PRef 3)
   \<and> Expression_variables 2 dup_world (PRef 3) = Inr [PRef 0, PRef 2]
   \<and> attr_name dup_world (PRef 2) = Inr ''y''
   \<and> map_of (variables y_registered) ''y'' = Some (PRef 1)
   \<and> PRef 1 \<noteq> PRef 2
   \<and> fst (Solver_add_constraint 3 dup_world y_registered (PRef 3)) = Inl (ValueError duplicate_msg)
   \<and> isinstance_Expression dup_world (PRef 4)
   \<and> Expression_variables 2 dup_world (PRef 4) = Inr [PRef 0, PRef 1]
   \<and> attr_name dup_world (PRef 0) = Inr ''x'' \<and> map_of (variables y_registered) ''x'' = None
   \<and> attr_name dup_world (PRef 1) = Inr ''y''
   \<and> fst (Solver_add_constraint 3 dup_world y_registered (PRef 4)) = Inr ()
   \<and> conststore (snd (Solver_add_constraint 3 dup_world y_registered (PRef 4))) = [PRef 4]"
proof -
  have e3: "isinstance_Expression dup_world (PRef 3)" and e4: "isinstance_Expression dup_world (PRef 4)"
    by code_simp+
  have v3: "Expression_variables 2 dup_world (PRef 3) = Inr [PRef 0, PRef 2]"
    and v4: "Expression_variables 2 dup_world (PRef 4) = Inr [PRef 0, PRef 1]"
    by code_simp+
  have n: "attr_name dup_world (PRef 0) = Inr ''x''" "attr_name dup_world (PRef 1) = Inr ''y''"
    "attr_name dup_world (PRef 2) = Inr ''y''"
    by code_simp+
  have m: "map_of (variables y_registered) ''y'' = Some (PRef 1)"
    "map_of (variables y_registered) ''x'' = None"
    by (simp_all add: y_registered_def)
  have c: "conststore y_registered = []" by (simp add: y_registered_def)
  have three: "(3::nat) = Suc 2" by simp
  from add_constraint_duplicate_name [OF e3 v3, of "PRef 2" "''y''" y_registered "PRef 1"] n m
  have "fst (Solver_add_constraint 3 dup_world y_registered (PRef 3)) = Inl (ValueError duplicate_msg)"
    unfolding three by (simp del: Solver_add_constraint.simps)
  moreover
  from add_constraint_duplicate_name [OF e4 v4, of "PRef 2" "''y''" y_registered "PRef 1"] n m c
  have "fst (Solver_add_constraint 3 dup_world y_registered (PRef 4)) = Inr ()
     \<and> conststore (snd (Solver_add_constraint 3 dup_world y_registered (PRef 4))) = [PRef 4]"
    unfolding three by (simp del: Solver_add_constraint.simps)
  ultimately show ?thesis using e3 e4 v3 v4 n m by (simp del: Solver_add_constraint.simps Expression_variables.simps)
qed


text \<open>
  C10. If \<^verbatim>\<open>add_constraint(c)\<close> raises the duplicate-name error for an Expression \<open>c\<close>,
  the constraint list is what it was, and the variables of \<open>c\<close> split into those visited
  before the offending one, the offending one \<open>v\<close> (whose name the map gives to another
  object), and the rest: every variable visited before \<open>v\<close> is registered under its name
  in the Solver that the failed call leaves behind. In the closed instance that map has
  gained the entry for \<^verbatim>\<open>x\<close>.
\<close>

theorem add_constraint_not_atomic:
  assumes "isinstance_Expression w c"
    and "Solver_add_constraint (Suc n) w s c = (Inl (ValueError duplicate_msg), s')"
  shows "conststore s' = conststore s
       \<and> (\<exists>xs pre v post nm u. Expression_variables n w c = Inr xs \<and> xs = pre @ v # post
            \<and> attr_name w v = Inr nm \<and> map_of (variables s') nm = Some u \<and> u \<noteq> v
            \<and> (\<forall>x \<in> set pre. \<exists>nx. attr_name w x = Inr nx \<and> map_of (variables s') nx = Some x))"
proof -
  from add_constraint_Expression_cases [OF assms] Expression_variables_error [of n w c]
  obtain xs where xs: "Expression_variables n w c = Inr xs"
    and reg: "register_variables w (variables s) xs = (Inl (ValueError duplicate_msg), variables s')"
    and cs: "conststore s' = conststore s"
    by auto
  from register_variables_failed [OF reg] xs cs show ?thesis by blast
qed

theorem add_constraint_not_atomic_witness:
  "isinstance_Expression dup_world (PRef 3)
   \<and> Solver_add_constraint 3 dup_world y_registered (PRef 3)
       = (Inl (ValueError duplicate_msg),
          \<lparr>conststore = [], variables = [(''y'', PRef 1), (''x'', PRef 0)]\<rparr>)
   \<and> conststore y_registered = []
   \<and> variables y_registered = [(''y'', PRef 1)]
   \<and> Expression_variables 2 dup_world (PRef 3) = Inr ([PRef 0] @ PRef 2 # [])
   \<and> attr_name dup_world (PRef 2) = Inr ''y''
   \<and> attr_name dup_world (PRef 0) = Inr ''x''"
proof -
  have e3: "isinstance_Expression dup_world (PRef 3)" by code_simp
  have r: "Solver_add_constraint (Suc 2) dup_world y_registered (PRef 3)
       = (Inl (ValueError duplicate_msg),
          \<lparr>conststore = [], variables = [(''y'', PRef 1), (''x'', PRef 0)]\<rparr>)"
    by code_simp
  have rest: "conststore y_registered = []" "variables y_registered = [(''y'', PRef 1)]"
    "Expression_variables 2 dup_world (PRef 3) = Inr ([PRef 0] @ PRef 2 # [])"
    "attr_name dup_world (PRef 2) = Inr ''y''" "attr_name dup_world (PRef 0) = Inr ''x''"
    by code_simp+
  have three: "(3::nat) = Suc 2" by simp
  from add_constraint_not_atomic [OF e3 r] e3 r rest show ?thesis
    unfolding three by (simp del: Solver_add_constraint.simps Expression_variables.simps)
qed

subsection \<open>Lowering\<close>

lemma dict_set_fresh: "map_of kvs k = None \<Longrightarrow> dict_set k v kvs = kvs @ [(k, v)]"
  by (induction kvs) (auto split: if_splits)

text \<open>
  C9. Lowering recurses on the constraint tree. An integer (\<^verbatim>\<open>int\<close> or numpy integer)
  lowers to itself. A Variable whose name has no backend variable yet, and whose domain has
  the lower bound \<open>lo\<close> (possibly unset) and the exclusive upper bound \<open>hi\<close>, lowers to a new
  integer backend variable with the bounds \<open>lo\<close> and \<open>hi - 1\<close>, which is recorded under the
  name; a Variable whose name has a backend variable lowers to that one, whatever its own
  domain. A \<^verbatim>\<open>+\<close> node whose two operands lower, one after the other, to \<open>lx\<close> and \<open>ly\<close>
  lowers to \<^verbatim>\<open>lx + ly\<close>, and a \<^verbatim>\<open>=\<close> node to \<^verbatim>\<open>lx == ly\<close>; one more level of recursion
  depth than the operands need is enough. (With the upper bound unset the subtraction
  raises \<^verbatim>\<open>TypeError\<close>, and no backend variable is made.)
\<close>

theorem lowering_structure:
  "(isinstance_int c \<or> isinstance_np_integer c \<longrightarrow>
      SolverPulp_convert_constraint (Suc n) w s c = (Inr (Py c), s))
   \<and> (obj_at w a1 = Some (Variable opr1 vs1 nm1 (PDomain (DomainRange lo (Some hi))))
        \<and> map_of (lpvars s) nm1 = None \<longrightarrow>
      SolverPulp_convert_constraint (Suc n) w s (PRef a1)
        = (Inr (LpVariable nm1 lo (hi - 1) LpInteger),
           s\<lparr>lpvars := lpvars s @ [(nm1, LpVariable nm1 lo (hi - 1) LpInteger)]\<rparr>))
   \<and> (obj_at w a2 = Some (Variable opr2 vs2 nm2 d2) \<and> map_of (lpvars s) nm2 = Some lv \<longrightarrow>
      SolverPulp_convert_constraint (Suc n) w s (PRef a2) = (Inr lv, s))
   \<and> (obj_at w a3 = Some (Expression (Some ''+'') [x3, y3])
        \<and> SolverPulp_convert_constraint n w s x3 = (Inr lx3, s3)
        \<and> SolverPulp_convert_constraint n w s3 y3 = (Inr ly3, s3') \<longrightarrow>
      SolverPulp_convert_constraint (Suc n) w s (PRef a3) = (Inr (Plus lx3 ly3), s3'))
   \<and> (obj_at w a4 = Some (Expression (Some ''='') [x4, y4])
        \<and> SolverPulp_convert_constraint n w s x4 = (Inr lx4, s4)
        \<and> SolverPulp_convert_constraint n w s4 y4 = (Inr ly4, s4') \<longrightarrow>
      SolverPulp_convert_constraint (Suc n) w s (PRef a4) = (Inr (Equals lx4 ly4), s4'))"
proof (intro conjI impI)
  assume "isinstance_int c \<or> isinstance_np_integer c"
  then show "SolverPulp_convert_constraint (Suc n) w s c = (Inr (Py c), s)" by auto
next
  assume "obj_at w a1 = Some (Variable opr1 vs1 nm1 (PDomain (DomainRange lo (Some hi))))
        \<and> map_of (lpvars s) nm1 = None"
  then show "SolverPulp_convert_constraint (Suc n) w s (PRef a1)
        = (Inr (LpVariable nm1 lo (hi - 1) LpInteger),
           s\<lparr>lpvars := lpvars s @ [(nm1, LpVariable nm1 lo (hi - 1) LpInteger)]\<rparr>)"
    by (simp add: SolverPulp_add_lpvar_def new_LpVariable_def dict_set_fresh)
next
  assume "obj_at w a2 = Some (Variable opr2 vs2 nm2 d2) \<and> map_of (lpvars s) nm2 = Some lv"
  then show "SolverPulp_convert_constraint (Suc n) w s (PRef a2) = (Inr lv, s)"
    by (simp add: SolverPulp_add_lpvar_def)
next
  assume "obj_at w a3 = Some (Expression (Some ''+'') [x3, y3])
        \<and> SolverPulp_convert_constraint n w s x3 = (Inr lx3, s3)
        \<and> SolverPulp_convert_constraint n w s3 y3 = (Inr ly3, s3')"
  then show "SolverPulp_convert_constraint (Suc n) w s (PRef a3) = (Inr (Plus lx3 ly3), s3')"
    by simp
next
  assume "obj_at w a4 = Some (Expression (Some ''='') [x4, y4])
        \<and> SolverPulp_convert_constraint n w s x4 = (Inr lx4, s4)
        \<and> SolverPulp_convert_constraint n w s4 y4 = (Inr ly4, s4')"
  then show "SolverPulp_convert_constraint (Suc n) w s (PRef a4) = (Inr (Equals lx4 ly4), s4')"
    by simp
qed

theorem lowering_structure_witness:
  "isinstance_int (PInt 7)
   \<and> SolverPulp_convert_constraint 3 lower_world a_lowered (PInt 7) = (Inr (Py (PInt 7)), a_lowered)
   \<and> obj_at lower_world 1 = Some (Variable None [] ''b'' (PDomain (DomainRange (Some 0) (Some 2))))
   \<and> map_of (lpvars a_lowered) ''b'' = None
   \<and> SolverPulp_convert_constraint 3 lower_world a_lowered (PRef 1)
        = (Inr (LpVariable ''b'' (Some 0) 1 LpInteger), ab_lowered)
   \<and> obj_at lower_world 2 = Some (Variable None [] ''a'' (PDomain (DomainRange (Some 5) (Some 9))))
   \<and> map_of (lpvars a_lowered) ''a'' = Some lp_a
   \<and> SolverPulp_convert_constraint 3 lower_world a_lowered (PRef 2) = (Inr lp_a, a_lowered)
   \<and> obj_at lower_world 3 = Some (Expression (Some ''+'') [PRef 0, PRef 1])
   \<and> SolverPulp_convert_constraint 2 lower_world a_lowered (PRef 0) = (Inr lp_a, a_lowered)
   \<and> SolverPulp_convert_constraint 2 lower_world a_lowered (PRef 1) = (Inr lp_b, ab_lowered)
   \<and> SolverPulp_convert_constraint 3 lower_world a_lowered (PRef 3) = (Inr (Plus lp_a lp_b), ab_lowered)
   \<and> obj_at lower_world 4 = Some (Expression (Some ''='') [PRef 3, PInt 1])
   \<and> SolverPulp_convert_constraint 2 lower_world a_lowered (PRef 3) = (Inr (Plus lp_a lp_b), ab_lowered)
   \<and> SolverPulp_convert_constraint 2 lower_world ab_lowered (PInt 1) = (Inr (Py (PInt 1)), ab_lowered)
   \<and> SolverPulp_convert_constraint 3 lower_world a_lowered (PRef 4)
        = (Inr (Equals (Plus lp_a lp_b) (Py (PInt 1))), ab_lowered)"
proof -
  have o: "obj_at lower_world 1 = Some (Variable None [] ''b'' (PDomain (DomainRange (Some 0) (Some 2))))"
    "obj_at lower_world 2 = Some (Variable None [] ''a'' (PDomain (DomainRange (Some 5) (Some 9))))"
    "obj_at lower_world 3 = Some (Expression (Some ''+'') [PRef 0, PRef 1])"
    "obj_at lower_world 4 = Some (Expression (Some ''='') [PRef 3, PInt 1])"
    by (simp_all add: obj_at_def lower_world_def)
  have m: "map_of (lpvars a_lowered) ''b'' = None" "map_of (lpvars a_lowered) ''a'' = Some lp_a"
    by (simp_all add: a_lowered_def)
  have ab: "a_lowered\<lparr>lpvars := lpvars a_lowered @ [(''b'', LpVariable ''b'' (Some 0) (2 - 1) LpInteger)]\<rparr>
              = ab_lowered"
    by (simp add: a_lowered_def ab_lowered_def lp_b_def)
  have sub: "SolverPulp_convert_constraint (Suc 1) lower_world a_lowered (PRef 0) = (Inr lp_a, a_lowered)"
    "SolverPulp_convert_constraint (Suc 1) lower_world a_lowered (PRef 1) = (Inr lp_b, ab_lowered)"
    "SolverPulp_convert_constraint (Suc 1) lower_world a_lowered (PRef 3) = (Inr (Plus lp_a lp_b), ab_lowered)"
    "SolverPulp_convert_constraint (Suc 1) lower_world ab_lowered (PInt 1) = (Inr (Py (PInt 1)), ab_lowered)"
    by code_simp+
  have n: "(3::nat) = Suc (Suc 1)" "(2::nat) = Suc 1" by simp_all
  from lowering_structure [of "PInt 7" "Suc 1" lower_world a_lowered
      1 None "[]" "''b''" "Some 0" 2
      2 None "[]" "''a''" "PDomain (DomainRange (Some 5) (Some 9))" lp_a
      3 "PRef 0" "PRef 1" lp_a a_lowered lp_b ab_lowered
      4 "PRef 3" "PInt 1" "Plus lp_a lp_b" ab_lowered "Py (PInt 1)" ab_lowered]
    o m sub
  show ?thesis
    unfolding n by (simp add: ab del: SolverPulp_convert_constraint.simps) (simp add: lp_b_def)
qed


subsection \<open>A container compared with a scalar\<close>

lemma upt_4: "[0..<4] = [0, 1, 2, 3]"
  by (simp add: upt_rec)

lemma Variables_new_2_2:
  "Variables_new w [2, 2] PNone None =
     (Inr (PRef (length (heap w) + 4)),
      w\<lparr>varidx := Suc (varidx w),
        heap := heap w @ [container_var w 0, container_var w 1, container_var w 2, container_var w 3,
                  Ndarray True np_object [2, 2]
                    [PRef (length (heap w)), PRef (length (heap w) + 1),
                     PRef (length (heap w) + 2), PRef (length (heap w) + 3)]]\<rparr>)"
  by (simp add: Variables_new_def Variable_new_name_def upt_4 Variable_init_def alloc_def
      container_var_def auto_name_def unbounded_def)

lemma indices_2_2: "indices [2, 2] = [[0, 0], [0, 1], [1, 0], [1, 1]]"
  by (simp add: upt_rec)

lemma Variables_eq_2_2:
  assumes h: "heap u = h @ [Variable None [] n0 d0, Variable None [] n1 d1,
                           Variable None [] n2 d2, Variable None [] n3 d3,
                           Ndarray True np_object [2, 2]
                             [PRef (length h), PRef (length h + 1), PRef (length h + 2), PRef (length h + 3)]]"
  shows "Variables_eq H u (PRef (length h + 4)) (PInt 0) =
     (PRef (length h + 11),
      u\<lparr>heap := heap u @
         [Ndarray False np_object [2, 2]
            [PRef (length h), PRef (length h + 1), PRef (length h + 2), PRef (length h + 3)],
          Ndarray False np_object [2, 2]
            [PRef (length h + 7), PRef (length h + 8), PRef (length h + 9), PRef (length h + 10)],
          Expression (Some ''='') [PRef (length h), PNpInt 0],
          Expression (Some ''='') [PRef (length h + 1), PNpInt 0],
          Expression (Some ''='') [PRef (length h + 2), PNpInt 0],
          Expression (Some ''='') [PRef (length h + 3), PNpInt 0],
          Ndarray True np_object [2, 2]
            [PRef (length h + 7), PRef (length h + 8), PRef (length h + 9), PRef (length h + 10)]]\<rparr>)"
proof -
  have views: "list_comprehension view_if_Variables u [PRef (length h + 4), PInt 0]
      = (Inr [PRef (length h + 5), PInt 0],
         u\<lparr>heap := heap u @ [Ndarray False np_object [2, 2]
            [PRef (length h), PRef (length h + 1), PRef (length h + 2), PRef (length h + 3)]]\<rparr>)"
    by (simp add: view_if_Variables_def obj_at_def h alloc_def nth_append)
  let ?k = "length h"
  let ?view = "Ndarray False np_object [2, 2] [PRef ?k, PRef (?k + 1), PRef (?k + 2), PRef (?k + 3)]"
  let ?u1 = "u\<lparr>heap := heap u @ [?view]\<rparr>"
  have bc: "np_broadcast H ?u1 [PRef (?k + 5), PInt 0]
      = (Inr ([2, 2], [[PRef ?k, PNpInt 0], [PRef (?k + 1), PNpInt 0],
                       [PRef (?k + 2), PNpInt 0], [PRef (?k + 3), PNpInt 0]]), ?u1)"
    by (simp add: np_broadcast_def broadcast_operand_def obj_at_def h nth_append
        broadcast_shape_def indices_2_2 element_at_def offset_def del: indices.simps)
  let ?empty = "Ndarray False np_object [2, 2] [PNone, PNone, PNone, PNone]"
  let ?u2 = "u\<lparr>heap := heap u @ [?view, ?empty]\<rparr>"
  let ?E0 = "Expression (Some ''='') [PRef ?k, PNpInt 0]"
  let ?E1 = "Expression (Some ''='') [PRef (?k + 1), PNpInt 0]"
  let ?E2 = "Expression (Some ''='') [PRef (?k + 2), PNpInt 0]"
  let ?E3 = "Expression (Some ''='') [PRef (?k + 3), PNpInt 0]"
  let ?u3 = "u\<lparr>heap := heap u @ [?view, ?empty, ?E0, ?E1, ?E2, ?E3]\<rparr>"
  have eqs: "list_comprehension (equal_pair H) ?u2
        [[PRef ?k, PNpInt 0], [PRef (?k + 1), PNpInt 0], [PRef (?k + 2), PNpInt 0], [PRef (?k + 3), PNpInt 0]]
      = (Inr [PRef (?k + 7), PRef (?k + 8), PRef (?k + 9), PRef (?k + 10)], ?u3)"
    by (simp add: py_eq_def Expression_eq_def Expression_init_def valid_operand_def
        obj_at_def h nth_append alloc_def)
  let ?full = "Ndarray False np_object [2, 2] [PRef (?k + 7), PRef (?k + 8), PRef (?k + 9), PRef (?k + 10)]"
  let ?u4 = "u\<lparr>heap := heap u @ [?view, ?full, ?E0, ?E1, ?E2, ?E3]\<rparr>"
  have alloc_res: "alloc ?u1 (Ndarray False np_object [2, 2] (replicate (prod_list [2, 2]) PNone))
      = (?k + 6, ?u2)"
    by (simp add: alloc_def h numeral_eq_Suc)
  have flat: "set_flat ?u3 (PRef (?k + 6)) [PRef (?k + 7), PRef (?k + 8), PRef (?k + 9), PRef (?k + 10)]
      = Inr ?u4"
    by (simp add: obj_at_def h nth_append fill_def upt_4 list_update_append)
  have call: "Variables_call_ufunc H ?u1 np_equal ''__call__'' [PRef (?k + 5), PInt 0] None
      = (Inr (PRef (?k + 6)), ?u4)"
    by (simp only: Variables_call_ufunc_def bc alloc_res eqs flat Let_def prod.case sum.case
        option.case simp_thms if_True)
  have final: "list_comprehension (as_Variables_if H) ?u4 [(True, PRef (?k + 6))]
      = (Inr [PRef (?k + 11)],
         u\<lparr>heap := heap u @ [?view, ?full, ?E0, ?E1, ?E2, ?E3,
                 Ndarray True np_object [2, 2] [PRef (?k + 7), PRef (?k + 8), PRef (?k + 9), PRef (?k + 10)]]\<rparr>)"
    by (simp add: as_Variables_if_def obj_at_def h nth_append alloc_def)
  have nout1: "nout np_equal = 1" by (simp add: np_equal_def)
  have conv: "zip (replicate 1 True) [PRef (?k + 6)] = [(True, PRef (?k + 6))]"
    by simp
  show ?thesis
    by (simp only: Variables_eq_def Variables_array_ufunc_def array_ufunc_try_def views call
        conv final nout1 first_item.simps Let_def prod.case sum.case option.case simp_thms if_True)
qed


lemma less_4: "i < (4::nat) \<longleftrightarrow> i = 0 \<or> i = 1 \<or> i = 2 \<or> i = 3"
  by arith

lemma string_of_nat_small:
  "string_of_nat 0 = ''0''" "string_of_nat 1 = ''1''" "string_of_nat 2 = ''2''"
  "string_of_nat 3 = ''3''"
  by (subst string_of_nat.simps, simp add: digit_char_def)+

lemma py_str_equals_zero:
  assumes "obj_at w e = Some (Expression (Some ''='') [PRef x, PNpInt 0])"
    and "obj_at w x = Some (Variable opr vs nm d)"
  shows "py_str (Suc (Suc n)) H w (PRef e) = Inr (nm @ '' = 0'')"
  using assms by (simp add: string_of_int_def string_of_nat_small)

text \<open>
  C2. In any world, with any host, \<^verbatim>\<open>v = Variables((2, 2))\<close> returns a container of shape
  (2, 2) over four new variables named \<^verbatim>\<open>var_<n>_0\<close> .. \<^verbatim>\<open>var_<n>_3\<close>, and \<^verbatim>\<open>v == 0\<close> then
  returns a \<^verbatim>\<open>Variables\<close> container of dtype \<^verbatim>\<open>object\<close> and shape (2, 2) whose four
  elements are references to new Expression nodes with op \<^verbatim>\<open>"="\<close>, the \<open>i\<close>-th holding the
  \<open>i\<close>-th variable and the numpy integer 0 that the broadcast makes of the scalar, and
  rendering as \<^verbatim>\<open><name of the variable> = 0\<close>. No element is a boolean, and the host is
  never asked.
\<close>

theorem container_equals_zero:
  "let k = length (heap w);
       nm = (\<lambda>i. auto_name (varidx w) @ ''_'' @ string_of_nat i);
       (v, w1) = Variables_new w [2, 2] PNone None;
       (r, w2) = Variables_eq H w1 (PRef (k + 4)) (PInt 0)
   in v = Inr (PRef (k + 4))
    \<and> obj_at w1 (k + 4) = Some (Ndarray True np_object [2, 2] (map (\<lambda>i. PRef (k + i)) [0..<4]))
    \<and> r = PRef (k + 11)
    \<and> obj_at w2 (k + 11)
        = Some (Ndarray True np_object [2, 2] (map (\<lambda>i. PRef (k + 7 + i)) [0..<4]))
    \<and> (\<forall>i<4. obj_at w2 (k + i) = Some (Variable None [] (nm i) unbounded)
            \<and> obj_at w2 (k + 7 + i) = Some (Expression (Some ''='') [PRef (k + i), PNpInt 0])
            \<and> py_str (Suc (Suc n)) H w2 (PRef (k + 7 + i)) = Inr (nm i @ '' = 0''))"
proof -
  let ?k = "length (heap w)"
  let ?nm = "\<lambda>i. auto_name (varidx w) @ ''_'' @ string_of_nat i"
  obtain v w1 where new: "Variables_new w [2, 2] PNone None = (v, w1)"
    by (cases "Variables_new w [2, 2] PNone None")
  obtain r w2 where eq: "Variables_eq H w1 (PRef (?k + 4)) (PInt 0) = (r, w2)"
    by (cases "Variables_eq H w1 (PRef (?k + 4)) (PInt 0)")
  from new have v: "v = Inr (PRef (?k + 4))"
    and h1: "heap w1 = heap w @ [Variable None [] (?nm 0) unbounded, Variable None [] (?nm 1) unbounded,
                Variable None [] (?nm 2) unbounded, Variable None [] (?nm 3) unbounded,
                Ndarray True np_object [2, 2] [PRef ?k, PRef (?k + 1), PRef (?k + 2), PRef (?k + 3)]]"
    unfolding Variables_new_2_2 by (auto simp: container_var_def)
  from eq have r: "r = PRef (?k + 11)"
    and h2: "heap w2 = heap w1 @
         [Ndarray False np_object [2, 2] [PRef ?k, PRef (?k + 1), PRef (?k + 2), PRef (?k + 3)],
          Ndarray False np_object [2, 2] [PRef (?k + 7), PRef (?k + 8), PRef (?k + 9), PRef (?k + 10)],
          Expression (Some ''='') [PRef ?k, PNpInt 0],
          Expression (Some ''='') [PRef (?k + 1), PNpInt 0],
          Expression (Some ''='') [PRef (?k + 2), PNpInt 0],
          Expression (Some ''='') [PRef (?k + 3), PNpInt 0],
          Ndarray True np_object [2, 2] [PRef (?k + 7), PRef (?k + 8), PRef (?k + 9), PRef (?k + 10)]]"
    unfolding Variables_eq_2_2 [OF h1] by auto
  have a1: "obj_at w1 (?k + 4)
      = Some (Ndarray True np_object [2, 2] (map (\<lambda>i. PRef (?k + i)) [0..<4]))"
    by (simp add: obj_at_def h1 nth_append upt_4)
  have a2: "obj_at w2 (?k + 11)
      = Some (Ndarray True np_object [2, 2] (map (\<lambda>i. PRef (?k + 7 + i)) [0..<4]))"
    by (simp add: obj_at_def h1 h2 nth_append upt_4)
  have vars: "obj_at w2 (?k + i) = Some (Variable None [] (?nm i) unbounded)" if "i < 4" for i
    using that by (auto simp: less_4 obj_at_def h1 h2 nth_append)
  have nodes: "obj_at w2 (?k + 7 + i) = Some (Expression (Some ''='') [PRef (?k + i), PNpInt 0])"
    if "i < 4" for i
    using that by (auto simp: less_4 obj_at_def h1 h2 nth_append)
  have strs: "py_str (Suc (Suc n)) H w2 (PRef (?k + 7 + i)) = Inr (?nm i @ '' = 0'')" if "i < 4" for i
    using py_str_equals_zero [OF nodes [OF that] vars [OF that]] .
  from v a1 r a2 vars nodes strs show ?thesis
    unfolding Let_def new eq prod.case by blast
qed


theorem container_equals_zero_witness:
  "fst (Variables_new empty_world [2, 2] PNone None) = Inr (PRef 4)
   \<and> obj_at (snd (Variables_new empty_world [2, 2] PNone None)) 4
        = Some (Ndarray True np_object [2, 2] [PRef 0, PRef 1, PRef 2, PRef 3])
   \<and> fst (Variables_eq no_host (snd (Variables_new empty_world [2, 2] PNone None)) (PRef 4) (PInt 0))
        = PRef 11
   \<and> obj_at eq_zero_world 11 = Some (Ndarray True np_object [2, 2] [PRef 7, PRef 8, PRef 9, PRef 10])
   \<and> obj_at eq_zero_world 7 = Some (Expression (Some ''='') [PRef 0, PNpInt 0])
   \<and> obj_at eq_zero_world 8 = Some (Expression (Some ''='') [PRef 1, PNpInt 0])
   \<and> obj_at eq_zero_world 9 = Some (Expression (Some ''='') [PRef 2, PNpInt 0])
   \<and> obj_at eq_zero_world 10 = Some (Expression (Some ''='') [PRef 3, PNpInt 0])
   \<and> py_str (Suc (Suc 0)) no_host eq_zero_world (PRef 7) = Inr ''var_0_0 = 0''
   \<and> py_str (Suc (Suc 0)) no_host eq_zero_world (PRef 8) = Inr ''var_0_1 = 0''
   \<and> py_str (Suc (Suc 0)) no_host eq_zero_world (PRef 9) = Inr ''var_0_2 = 0''
   \<and> py_str (Suc (Suc 0)) no_host eq_zero_world (PRef 10) = Inr ''var_0_3 = 0''"
proof -
  have k: "length (heap empty_world) = 0" and c: "auto_name (varidx empty_world) = ''var_0''"
    by (simp_all add: empty_world_def auto_name_def string_of_nat_small)
  have one: "string_of_nat (Suc 0) = ''1''"
    using string_of_nat_small(2) by simp
  from container_equals_zero [of empty_world no_host 0]
  show ?thesis
    unfolding Let_def case_prod_beta k c eq_zero_world_def
    by (simp add: less_4 upt_4 string_of_nat_small one all_conj_distrib imp_conjR
        del: py_str.simps)
qed


text \<open>
  Comparing the container with \<^verbatim>\<open>True\<close> builds nothing: the broadcast yields a
  \<^verbatim>\<open>numpy.bool_\<close>, which \<^verbatim>\<open>Expression.__init__\<close> rejects, and \<^verbatim>\<open>__array_ufunc__\<close> returns
  \<^verbatim>\<open>None\<close> after the exception. And \<^verbatim>\<open>==\<close> gives the right operand the first call when
  it is a Variable and the left one a plain Expression.
\<close>

lemma container_equals_True:
  "fst (Variables_eq no_host (snd (Variables_new empty_world [2, 2] PNone None)) (PRef 4) (PBool True))
     = PNone"
  by code_simp

lemma py_eq_subclass_first:
  "\<lbrakk>isinstance_Expression w a; \<not> isinstance_Variable w a; isinstance_Variable w b\<rbrakk>
   \<Longrightarrow> py_eq H w a b = Expression_eq w b a"
  by (simp add: py_eq_def)

lemma py_eq_left_first:
  "\<lbrakk>isinstance_Expression w a; isinstance_Variable w a \<or> \<not> isinstance_Variable w b\<rbrakk>
   \<Longrightarrow> py_eq H w a b = Expression_eq w a b"
  by (auto simp: py_eq_def)

subsection \<open>Generated names\<close>

lemma digits_distinct: "distinct ''0123456789''" by simp
lemma digits_length: "length ''0123456789'' = 10" by simp

lemma digit_char_inj: "\<lbrakk>a < 10; b < 10; digit_char a = digit_char b\<rbrakk> \<Longrightarrow> a = b"
proof -
  assume a: "a < 10" and b: "b < 10" and e: "digit_char a = digit_char b"
  from a b have "a < length ''0123456789''" "b < length ''0123456789''"
    by (simp_all only: digits_length)
  from nth_eq_iff_index_eq [OF digits_distinct this] e show "a = b"
    by (simp only: digit_char_def)
qed

lemma string_of_nat_nonempty: "string_of_nat n \<noteq> []"
  by (subst string_of_nat.simps) simp

lemma string_of_nat_inj: "string_of_nat n = string_of_nat m \<Longrightarrow> n = m"
proof (induction n arbitrary: m rule: string_of_nat.induct)
  case (1 n)
  show ?case
  proof (cases "n < 10")
    case True
    then have n: "string_of_nat n = [digit_char n]" by (subst string_of_nat.simps) simp
    show ?thesis
    proof (cases "m < 10")
      case mt: True
      then have "string_of_nat m = [digit_char m]" by (subst string_of_nat.simps) simp
      with n "1.prems" True mt show ?thesis by (simp add: digit_char_inj)
    next
      case False
      then have "string_of_nat m = string_of_nat (m div 10) @ [digit_char (m mod 10)]"
        by (subst string_of_nat.simps) simp
      with n "1.prems" string_of_nat_nonempty [of "m div 10"] show ?thesis by simp
    qed
  next
    case False
    then have n: "string_of_nat n = string_of_nat (n div 10) @ [digit_char (n mod 10)]"
      by (subst string_of_nat.simps) simp
    show ?thesis
    proof (cases "m < 10")
      case True
      then have "string_of_nat m = [digit_char m]" by (subst string_of_nat.simps) simp
      with n "1.prems" string_of_nat_nonempty [of "n div 10"] show ?thesis by simp
    next
      case mf: False
      then have m: "string_of_nat m = string_of_nat (m div 10) @ [digit_char (m mod 10)]"
        by (subst string_of_nat.simps) simp
      from n m "1.prems" have e1: "string_of_nat (n div 10) = string_of_nat (m div 10)"
        and e2: "digit_char (n mod 10) = digit_char (m mod 10)" by simp_all
      from "1.IH" [OF False e1] have d: "n div 10 = m div 10" .
      have "n mod 10 = m mod 10" using e2 by (intro digit_char_inj) simp_all
      with d show ?thesis by (metis div_mult_mod_eq)
    qed
  qed
qed

lemma Variable_new_name_world:
  "Variable_new_name w = (n, w') \<Longrightarrow> heap w' = heap w \<and> varidx w' = Suc (varidx w)
     \<and> n = ''var_'' @ string_of_nat (varidx w)"
  by (auto simp: Variable_new_name_def)

lemma Variable_init_world:
  assumes "Variable_init w d nm = (r, w')"
  shows "(\<exists>ext. heap w' = heap w @ ext) \<and> varidx w \<le> varidx w'"
proof -
  obtain n w1 where p: "(case nm of None \<Rightarrow> Variable_new_name w | Some n \<Rightarrow> (n, w)) = (n, w1)"
    by (cases "case nm of None \<Rightarrow> Variable_new_name w | Some n \<Rightarrow> (n, w)")
  then have s1: "heap w1 = heap w \<and> varidx w \<le> varidx w1"
    by (cases nm) (auto dest: Variable_new_name_world)
  from assms p have "(\<exists>ext. heap w' = heap w1 @ ext) \<and> varidx w' = varidx w1"
    unfolding Variable_init_def Let_def
    by (auto simp: alloc_def split: sum.splits if_splits)
  with s1 show ?thesis by simp
qed

lemma Variable_init_auto:
  assumes "Variable_init w d None = (Inr (PRef a), w')"
  shows "a = length (heap w) \<and> varidx w' = Suc (varidx w)
     \<and> (\<exists>d'. heap w' = heap w @ [Variable None [] (''var_'' @ string_of_nat (varidx w)) d'])"
  using assms unfolding Variable_init_def Let_def Variable_new_name_def
  by (auto simp: alloc_def split: sum.splits if_splits)

lemma make_variables_world:
  "make_variables w d p is = (r, w') \<Longrightarrow>
     (\<exists>ext. heap w' = heap w @ ext) \<and> varidx w \<le> varidx w'"
proof (induction "is" arbitrary: w r w')
  case Nil
  then show ?case by simp
next
  case (Cons i "is")
  obtain r1 w1 where v: "Variable_init w d (Some (p @ ''_'' @ string_of_nat i)) = (r1, w1)"
    by (cases "Variable_init w d (Some (p @ ''_'' @ string_of_nat i))")
  note s1 = Variable_init_world [OF v]
  show ?case
  proof (cases r1)
    case (Inl e)
    with Cons.prems v s1 show ?thesis by simp
  next
    case (Inr x)
    obtain r2 w2 where m: "make_variables w1 d p is = (r2, w2)"
      by (cases "make_variables w1 d p is")
    from Cons.IH [OF m] s1 have "(\<exists>ext. heap w2 = heap w @ ext) \<and> varidx w \<le> varidx w2"
      by auto
    moreover from Cons.prems v Inr m have "w' = w2" by (auto split: sum.splits)
    ultimately show ?thesis by simp
  qed
qed

lemma Variables_new_world:
  "Variables_new w sh d np = (r, w') \<Longrightarrow>
     (\<exists>ext. heap w' = heap w @ ext) \<and> varidx w \<le> varidx w'"
proof -
  assume a: "Variables_new w sh d np = (r, w')"
  obtain pre w1 where p: "(case np of None \<Rightarrow> Variable_new_name w | Some p \<Rightarrow> (p, w)) = (pre, w1)"
    by (cases "case np of None \<Rightarrow> Variable_new_name w | Some p \<Rightarrow> (p, w)")
  then have s1: "heap w1 = heap w \<and> varidx w \<le> varidx w1"
    by (auto simp: Variable_new_name_def split: option.splits)
  obtain r2 w2 where m: "make_variables w1 d pre [0..<prod_list sh] = (r2, w2)"
    by (cases "make_variables w1 d pre [0..<prod_list sh]")
  note s2 = make_variables_world [OF m]
  from a p m have "(\<exists>ext. heap w' = heap w2 @ ext) \<and> varidx w' = varidx w2"
    by (auto simp: Variables_new_def alloc_def split: sum.splits)
  with s1 s2 show ?thesis by auto
qed

lemma construct_world:
  "construct w c = (r, w') \<Longrightarrow> (\<exists>ext. heap w' = heap w @ ext) \<and> varidx w \<le> varidx w'"
  by (cases c) (auto dest: Variable_init_world Variables_new_world)


lemma digit_char_digit: "d < 10 \<Longrightarrow> digit_char d \<in> set ''0123456789''"
  unfolding digit_char_def by (rule nth_mem) (simp only: digits_length)

lemma string_of_nat_digits: "set (string_of_nat n) \<subseteq> set ''0123456789''"
proof (induction n rule: string_of_nat.induct)
  case (1 n)
  show ?case
  proof (cases "n < 10")
    case True
    then have "string_of_nat n = [digit_char n]" by (subst string_of_nat.simps) simp
    with True digit_char_digit [of n] show ?thesis by simp
  next
    case False
    then have "string_of_nat n = string_of_nat (n div 10) @ [digit_char (n mod 10)]"
      by (subst string_of_nat.simps) simp
    moreover have "digit_char (n mod 10) \<in> set ''0123456789''"
      by (rule digit_char_digit) simp
    ultimately show ?thesis using "1.IH" [OF False] by simp
  qed
qed

lemma no_underscore: "CHR ''_'' \<notin> set (string_of_nat n)"
  using string_of_nat_digits [of n] by auto

lemma underscore_split:
  assumes "string_of_nat k @ CHR ''_'' # string_of_nat i = string_of_nat k' @ CHR ''_'' # string_of_nat j"
  shows "k = k'"
proof -
  from append_Cons_eq_iff [of "CHR ''_''" "string_of_nat k" "string_of_nat i" "string_of_nat k'"
      "string_of_nat j"] no_underscore assms
  have "string_of_nat k = string_of_nat k'" by blast
  then show ?thesis by (rule string_of_nat_inj)
qed

lemma names_of_counter_disjoint:
  assumes "x \<in> names_of_counter k" and "x \<in> names_of_counter k'"
  shows "k = k'"
proof -
  from assms(1) consider "x = ''var_'' @ string_of_nat k"
    | i where "x = ''var_'' @ string_of_nat k @ ''_'' @ string_of_nat i"
    by (auto simp: names_of_counter_def auto_name_def)
  then show ?thesis
  proof cases
    case 1
    from assms(2) consider "x = ''var_'' @ string_of_nat k'"
      | j where "x = ''var_'' @ string_of_nat k' @ ''_'' @ string_of_nat j"
      by (auto simp: names_of_counter_def auto_name_def)
    then show ?thesis
    proof cases
      case 1
      with \<open>x = ''var_'' @ string_of_nat k\<close> show ?thesis by (auto dest: string_of_nat_inj)
    next
      case 2
      with \<open>x = ''var_'' @ string_of_nat k\<close>
      have "string_of_nat k = string_of_nat k' @ ''_'' @ string_of_nat j" by simp
      then have "CHR ''_'' \<in> set (string_of_nat k)" by simp
      with no_underscore show ?thesis by blast
    qed
  next
    case 2
    from assms(2) consider "x = ''var_'' @ string_of_nat k'"
      | j where "x = ''var_'' @ string_of_nat k' @ ''_'' @ string_of_nat j"
      by (auto simp: names_of_counter_def auto_name_def)
    then show ?thesis
    proof cases
      case 1
      with 2 have "string_of_nat k' = string_of_nat k @ ''_'' @ string_of_nat i" by simp
      then have "CHR ''_'' \<in> set (string_of_nat k')" by simp
      with no_underscore show ?thesis by blast
    next
      case j: 2
      with 2 have "string_of_nat k @ CHR ''_'' # string_of_nat i
                 = string_of_nat k' @ CHR ''_'' # string_of_nat j" by simp
      then show ?thesis by (rule underscore_split)
    qed
  qed
qed

lemma element_names_distinct: "distinct (map (\<lambda>i. p @ CHR ''_'' # string_of_nat i) [0..<n])"
  by (auto simp: distinct_map inj_on_def dest: string_of_nat_inj)

lemma Variable_init_named:
  assumes "Variable_init w d (Some nm) = (Inr v, w')"
  shows "v = PRef (length (heap w)) \<and> varidx w' = varidx w
     \<and> (\<exists>d'. heap w' = heap w @ [Variable None [] nm d'])"
  using assms unfolding Variable_init_def Let_def
  by (auto simp: alloc_def split: sum.splits if_splits)

lemma make_variables_names:
  "make_variables w d p is = (Inr vs, w') \<Longrightarrow>
     varidx w' = varidx w \<and> (\<exists>e. heap w' = heap w @ e)
     \<and> (\<forall>ext. map (name_in (heap w' @ ext)) vs = map (\<lambda>i. p @ ''_'' @ string_of_nat i) is)"
proof (induction "is" arbitrary: w vs w')
  case Nil
  then show ?case by simp
next
  case (Cons i "is")
  obtain r1 w1 where v: "Variable_init w d (Some (p @ ''_'' @ string_of_nat i)) = (r1, w1)"
    by (cases "Variable_init w d (Some (p @ ''_'' @ string_of_nat i))")
  with Cons.prems obtain v1 where r1: "r1 = Inr v1" by (cases r1) auto
  obtain r2 w2 where m: "make_variables w1 d p is = (r2, w2)"
    by (cases "make_variables w1 d p is")
  with Cons.prems v r1 obtain vs2 where r2: "r2 = Inr vs2" by (cases r2) auto
  from Cons.prems v r1 m r2 have vs: "vs = v1 # vs2" and w': "w' = w2" by simp_all
  from Variable_init_named [OF v [unfolded r1]] obtain d' where
    v1: "v1 = PRef (length (heap w))" and c1: "varidx w1 = varidx w"
    and h1: "heap w1 = heap w @ [Variable None [] (p @ ''_'' @ string_of_nat i) d']" by blast
  from Cons.IH [OF m [unfolded r2]] obtain e where
    c2: "varidx w2 = varidx w1" and h2: "heap w2 = heap w1 @ e"
    and n2: "\<forall>ext. map (name_in (heap w2 @ ext)) vs2 = map (\<lambda>i. p @ ''_'' @ string_of_nat i) is"
    by blast
  have "name_in (heap w2 @ ext) v1 = p @ ''_'' @ string_of_nat i" for ext
    by (simp add: v1 h1 h2 nth_append)
  with n2 c1 c2 h1 h2 vs w' show ?case by simp
qed

lemma Variables_new_auto:
  assumes "Variables_new w sh d None = (Inr v, w')"
  shows "varidx w' = Suc (varidx w)
     \<and> (\<forall>ext. map (name_in (heap w' @ ext)) (elements_in (heap w' @ ext) v)
            = map (\<lambda>i. auto_name (varidx w) @ ''_'' @ string_of_nat i) [0..<prod_list sh])"
proof -
  let ?w1 = "w\<lparr>varidx := varidx w + 1\<rparr>"
  let ?p = "auto_name (varidx w)"
  obtain r2 w2 where m: "make_variables ?w1 d ?p [0..<prod_list sh] = (r2, w2)"
    by (cases "make_variables ?w1 d ?p [0..<prod_list sh]")
  with assms obtain vs where r2: "r2 = Inr vs"
    by (cases r2) (auto simp: Variables_new_def Variable_new_name_def auto_name_def)
  from assms m r2 have v: "v = PRef (length (heap w2))"
    and w': "heap w' = heap w2 @ [Ndarray True np_object sh vs]" and c: "varidx w' = varidx w2"
    by (auto simp: Variables_new_def Variable_new_name_def auto_name_def alloc_def)
  from make_variables_names [OF m [unfolded r2]] have c2: "varidx w2 = Suc (varidx w)"
    and n: "\<forall>ext. map (name_in (heap w2 @ ext)) vs
              = map (\<lambda>i. ?p @ ''_'' @ string_of_nat i) [0..<prod_list sh]"
    by simp_all
  have "elements_in (heap w' @ ext) v = vs" for ext
    by (simp add: v w' nth_append)
  moreover have "map (name_in (heap w' @ ext)) vs
      = map (\<lambda>i. ?p @ ''_'' @ string_of_nat i) [0..<prod_list sh]" for ext
    using n [rule_format, of "Ndarray True np_object sh vs # ext"] by (simp add: w')
  ultimately show ?thesis using c c2 by simp
qed

lemma auto_names_step:
  "auto_names h (c # cs) (r # rs) =
     (case (c, r) of
        (NewVariable d None, Inr v) \<Rightarrow> [name_in h v]
      | (NewVariables sh d None, Inr v) \<Rightarrow> map (name_in h) (elements_in h v)
      | _ \<Rightarrow> []) @ auto_names h cs rs"
  by (cases "(h, c # cs, r # rs)" rule: auto_names.cases)
    (auto split: option.splits sum.splits construction.splits)

lemma run_constructions_names:
  "run_constructions w cs = (rs, w') \<Longrightarrow>
     (\<exists>ext. heap w' = heap w @ ext) \<and> varidx w \<le> varidx w'
     \<and> set (auto_names (heap w') cs rs) \<subseteq> (\<Union>k \<in> {varidx w ..< varidx w'}. names_of_counter k)
     \<and> distinct (auto_names (heap w') cs rs)"
proof (induction cs arbitrary: w rs w')
  case Nil
  then show ?case by simp
next
  case (Cons c cs)
  obtain r w1 where c: "construct w c = (r, w1)" by (cases "construct w c")
  obtain rs1 w2 where t: "run_constructions w1 cs = (rs1, w2)"
    by (cases "run_constructions w1 cs")
  from Cons.prems c t have rs: "rs = r # rs1" and w': "w' = w2" by simp_all
  note s1 = construct_world [OF c]
  note ih = Cons.IH [OF t]
  from ih obtain e2 where e2: "heap w2 = heap w1 @ e2" by blast
  from s1 ih have ext: "\<exists>ext. heap w2 = heap w @ ext" and mono: "varidx w \<le> varidx w2"
    by auto
  let ?tail = "auto_names (heap w2) cs rs1"
  let ?head = "case (c, r) of
        (NewVariable d None, Inr v) \<Rightarrow> [name_in (heap w2) v]
      | (NewVariables sh d None, Inr v) \<Rightarrow> map (name_in (heap w2)) (elements_in (heap w2) v)
      | _ \<Rightarrow> []"
  have an: "auto_names (heap w2) (c # cs) (r # rs1) = ?head @ ?tail"
    by (rule auto_names_step)
  have tail: "set ?tail \<subseteq> (\<Union>k \<in> {varidx w1 ..< varidx w2}. names_of_counter k)"
    and dt: "distinct ?tail"
    using ih by simp_all
  have head: "set ?head \<subseteq> names_of_counter (varidx w) \<and> distinct ?head
      \<and> (?head \<noteq> [] \<longrightarrow> varidx w1 = Suc (varidx w))"
  proof (cases c)
    case (NewVariable d nm)
    show ?thesis
    proof (cases "nm = None \<and> (\<exists>v. r = Inr v)")
      case True
      then obtain v where nm: "nm = None" and r: "r = Inr v" by blast
      from c NewVariable nm r have i: "Variable_init w d None = (Inr v, w1)" by simp
      then obtain a where va: "v = PRef a"
        unfolding Variable_init_def Let_def
        by (auto simp: alloc_def split: sum.splits if_splits prod.splits)
      from Variable_init_auto [OF i [unfolded va]] obtain d' where
        a: "a = length (heap w)" and v1: "varidx w1 = Suc (varidx w)"
        and h1: "heap w1 = heap w @ [Variable None [] (auto_name (varidx w)) d']"
        by (auto simp: auto_name_def)
      have "name_in (heap w2) v = auto_name (varidx w)"
        by (simp add: va a e2 h1 nth_append)
      with NewVariable nm r v1 show ?thesis by (simp add: names_of_counter_def)
    next
      case False
      with NewVariable show ?thesis by (cases nm; cases r) auto
    qed
  next
    case (NewVariables sh d pre)
    show ?thesis
    proof (cases "pre = None \<and> (\<exists>v. r = Inr v)")
      case True
      then obtain v where pre: "pre = None" and r: "r = Inr v" by blast
      from c NewVariables pre r have "Variables_new w sh d None = (Inr v, w1)" by simp
      from Variables_new_auto [OF this] e2 have v1: "varidx w1 = Suc (varidx w)"
        and n: "map (name_in (heap w2)) (elements_in (heap w2) v)
              = map (\<lambda>i. auto_name (varidx w) @ ''_'' @ string_of_nat i) [0..<prod_list sh]"
        by simp_all
      from NewVariables pre r n v1 show ?thesis
        by (auto simp: names_of_counter_def element_names_distinct)
    next
      case False
      with NewVariables show ?thesis by (cases pre; cases r) auto
    qed
  qed
  have tail_w: "set ?tail \<subseteq> (\<Union>k \<in> {varidx w ..< varidx w2}. names_of_counter k)"
    using tail s1 by fastforce
  have head_w: "set ?head \<subseteq> (\<Union>k \<in> {varidx w ..< varidx w2}. names_of_counter k)"
  proof (cases "?head = []")
    case True
    then show ?thesis by simp
  next
    case False
    with head ih have "varidx w < varidx w2" by simp
    with head show ?thesis by fastforce
  qed
  have disj: "set ?head \<inter> set ?tail = {}"
  proof (rule ccontr)
    assume "set ?head \<inter> set ?tail \<noteq> {}"
    then obtain x where xh: "x \<in> set ?head" and xt: "x \<in> set ?tail" by blast
    from xh have ne: "?head \<noteq> []" by auto
    from xh head have "x \<in> names_of_counter (varidx w)" by blast
    moreover from tail xt have "x \<in> (\<Union>k \<in> {varidx w1 ..< varidx w2}. names_of_counter k)" ..
    then obtain k where "varidx w1 \<le> k" and "x \<in> names_of_counter k" by auto
    ultimately have "varidx w1 \<le> varidx w" by (auto dest: names_of_counter_disjoint)
    with head ne show False by simp
  qed
  from an head dt disj head_w tail_w ext mono rs w' show ?case by simp
qed

text \<open>
  C8. A call of the name generator returns \<^verbatim>\<open>var_\<close> followed by the decimal value of the
  counter and leaves the counter one higher. Run any sequence of constructor calls
  (variables and containers, with or without names, failing or not) from any world: the
  generated names, those of the variables constructed with no name supplied and those of
  the elements of the containers constructed with no prefix supplied, are pairwise
  distinct.
\<close>

theorem auto_names_distinct:
  "Variable_new_name w = (''var_'' @ string_of_nat (varidx w), w\<lparr>varidx := varidx w + 1\<rparr>)
   \<and> distinct (auto_names (heap (snd (run_constructions w cs))) cs (fst (run_constructions w cs)))"
  using run_constructions_names [of w cs "fst (run_constructions w cs)" "snd (run_constructions w cs)"]
  by (simp add: Variable_new_name_def)

end
